theory Spec2Isabelle
  imports Main "HOL-Library.Multiset"
begin

section \<open>JavaScript values and errors\<close>

text \<open>
  The webhook body and the vendor's error body reach the library untyped
  (\<^verbatim>\<open>unknown\<close>, \<^verbatim>\<open>any\<close>), so they are modelled as JavaScript values of the
  shape a JSON decoder produces, with \<^verbatim>\<open>undefined\<close> added for what a
  missing property reads as. Numbers are the integer-valued ones (of a size
  that prints in plain decimal); an object is the list of its own properties,
  read by key (keys are unique in an object; the first binding of a key is the
  one that counts).
\<close>

datatype jsvalue =
    JUndefined
  | JNull
  | JBool bool
  | JNum int
  | JStr string
  | JArr "jsvalue list"
  | JObj "(string \<times> jsvalue) list"

record WhatsAppError =
  name :: string
  message :: string
  code :: jsvalue
  title :: string
  httpStatus :: int
  details :: "string option"

text \<open>
  What the code can throw: the engine's \<^verbatim>\<open>TypeError\<close> (property read on
  \<^verbatim>\<open>null\<close>/\<^verbatim>\<open>undefined\<close>, iteration over a non-iterable, call of a
  non-function), the decoder's \<^verbatim>\<open>SyntaxError\<close>, a plain \<^verbatim>\<open>Error\<close> with
  its message, and the library's own \<^verbatim>\<open>WhatsAppError\<close>.
\<close>

datatype js_error =
    TypeError
  | SyntaxError
  | Error string
  | Thrown WhatsAppError

fun nullish :: "jsvalue \<Rightarrow> bool" where
  "nullish JUndefined = True"
| "nullish JNull = True"
| "nullish _ = False"

text \<open>JavaScript truthiness (\<^verbatim>\<open>if (x)\<close>, \<^verbatim>\<open>x && y\<close>, \<^verbatim>\<open>x || y\<close>).\<close>

fun truthy :: "jsvalue \<Rightarrow> bool" where
  "truthy JUndefined = False"
| "truthy JNull = False"
| "truthy (JBool b) = b"
| "truthy (JNum n) = (n \<noteq> 0)"
| "truthy (JStr s) = (s \<noteq> [])"
| "truthy (JArr _) = True"
| "truthy (JObj _) = True"

text \<open>
  Strict equality \<^verbatim>\<open>===\<close>. Primitives compare by value. Arrays and objects
  compare by reference; the two operands the code compares sit at different
  places of one decoded tree, so they are never the same reference.
\<close>

fun strict_eq :: "jsvalue \<Rightarrow> jsvalue \<Rightarrow> bool" where
  "strict_eq JUndefined JUndefined = True"
| "strict_eq JNull JNull = True"
| "strict_eq (JBool a) (JBool b) = (a = b)"
| "strict_eq (JNum a) (JNum b) = (a = b)"
| "strict_eq (JStr a) (JStr b) = (a = b)"
| "strict_eq _ _ = False"

text \<open>
  Property read \<^verbatim>\<open>v.k\<close>: a \<^verbatim>\<open>TypeError\<close> on \<^verbatim>\<open>null\<close> and
  \<^verbatim>\<open>undefined\<close>, the own property of an object, and \<^verbatim>\<open>undefined\<close> for a
  missing key and for every other value (none of the keys the library reads is
  a built-in property of arrays, strings, numbers or booleans).
\<close>

fun lookup :: "(string \<times> jsvalue) list \<Rightarrow> string \<Rightarrow> jsvalue" where
  "lookup [] k = JUndefined"
| "lookup ((k', v) # kvs) k = (if k' = k then v else lookup kvs k)"

fun get_prop :: "jsvalue \<Rightarrow> string \<Rightarrow> js_error + jsvalue" where
  "get_prop JUndefined k = Inl TypeError"
| "get_prop JNull k = Inl TypeError"
| "get_prop (JObj kvs) k = Inr (lookup kvs k)"
| "get_prop _ k = Inr JUndefined"

text \<open>Sequencing of a step that may throw with its continuation.\<close>

definition andThen :: "js_error + 'a \<Rightarrow> ('a \<Rightarrow> js_error + 'b) \<Rightarrow> js_error + 'b" where
  "andThen r f = (case r of Inl e \<Rightarrow> Inl e | Inr x \<Rightarrow> f x)"

section \<open>Webhook handshake (webhook.ts, verifyWebhook)\<close>

record VerifyQuery =
  hub_mode :: "string option"
  hub_verify_token :: "string option"
  hub_challenge :: "string option"

text \<open>
  The three query fields are optional strings. The test \<^verbatim>\<open>&& challenge\<close> is a
  truthiness test: it fails on \<^verbatim>\<open>undefined\<close> and on the empty string.
\<close>

definition verifyWebhook :: "VerifyQuery \<Rightarrow> string \<Rightarrow> js_error + string" where
  "verifyWebhook query verifyToken =
     (let mode = hub_mode query;
          token = hub_verify_token query;
          challenge = hub_challenge query
      in case challenge of
           None \<Rightarrow> Inl (Error ''Webhook verification failed'')
         | Some c \<Rightarrow>
             if mode = Some ''subscribe'' \<and> token = Some verifyToken \<and> c \<noteq> []
             then Inr c
             else Inl (Error ''Webhook verification failed''))"

section \<open>Error taxonomy (errors.ts)\<close>

text \<open>
  String conversion as template literals, \<^verbatim>\<open>String(x)\<close> and the
  \<^verbatim>\<open>Error\<close> constructor perform it. The conversion of a number is the
  engine's and comes in as the parameter \<open>number_to_string\<close>. A plain object
  converts through the \<^verbatim>\<open>toString\<close> it inherits, to
  \<^verbatim>\<open>[object Object]\<close>; an object that carries a \<^verbatim>\<open>toString\<close> property
  of its own (a decoded value, never callable) shadows the inherited method,
  and the conversion throws a \<^verbatim>\<open>TypeError\<close>. An array converts to its
  elements joined by commas, \<^verbatim>\<open>null\<close> and \<^verbatim>\<open>undefined\<close> elements
  empty, and throws where the conversion of an element does.
\<close>

fun has_own :: "(string \<times> jsvalue) list \<Rightarrow> string \<Rightarrow> bool" where
  "has_own [] k = False"
| "has_own ((k', v) # kvs) k = (k' = k \<or> has_own kvs k)"

fun join :: "string list \<Rightarrow> string \<Rightarrow> string" where
  "join [] sep = []"
| "join [s] sep = s"
| "join (s # t # ss) sep = s @ sep @ join (t # ss) sep"

fun js_to_string :: "(int \<Rightarrow> string) \<Rightarrow> jsvalue \<Rightarrow> js_error + string"
  and elements_to_strings :: "(int \<Rightarrow> string) \<Rightarrow> jsvalue list \<Rightarrow> js_error + string list" where
  "js_to_string number_to_string JUndefined = Inr ''undefined''"
| "js_to_string number_to_string JNull = Inr ''null''"
| "js_to_string number_to_string (JBool b) = Inr (if b then ''true'' else ''false'')"
| "js_to_string number_to_string (JNum n) = Inr (number_to_string n)"
| "js_to_string number_to_string (JStr s) = Inr s"
| "js_to_string number_to_string (JArr xs) =
     (case elements_to_strings number_to_string xs of
        Inl e \<Rightarrow> Inl e
      | Inr ss \<Rightarrow> Inr (join ss '',''))"
| "js_to_string number_to_string (JObj kvs) =
     (if has_own kvs ''toString'' then Inl TypeError else Inr ''[object Object]'')"
| "elements_to_strings number_to_string [] = Inr []"
| "elements_to_strings number_to_string (x # xs) =
     (case (if nullish x then Inr [] else js_to_string number_to_string x) of
        Inl e \<Rightarrow> Inl e
      | Inr s \<Rightarrow> (case elements_to_strings number_to_string xs of
                   Inl e \<Rightarrow> Inl e
                 | Inr ss \<Rightarrow> Inr (s # ss)))"

text \<open>
  The plain decimal form of an integer, which is what the conversion of a
  number gives for integers of magnitude below 10^21; it serves to evaluate the
  builder at concrete bodies.
\<close>

definition digit_char :: "nat \<Rightarrow> char" where
  "digit_char d = ''0123456789'' ! d"

fun nat_digits :: "nat \<Rightarrow> string" where
  "nat_digits n =
     (if n < 10 then [digit_char n] else nat_digits (n div 10) @ [digit_char (n mod 10)])"

declare nat_digits.simps [simp del]

definition decimal :: "int \<Rightarrow> string" where
  "decimal i = (if i < 0 then CHR ''-'' # nat_digits (nat (- i)) else nat_digits (nat i))"

text \<open>\<^verbatim>\<open>a || b\<close> and the optional chain \<^verbatim>\<open>v?.k\<close>.\<close>

definition js_or :: "jsvalue \<Rightarrow> jsvalue \<Rightarrow> jsvalue" where
  "js_or a b = (if truthy a then a else b)"

definition opt_chain :: "jsvalue \<Rightarrow> string \<Rightarrow> js_error + jsvalue" where
  "opt_chain v k = (if nullish v then Inr JUndefined else get_prop v k)"

text \<open>
  The constructor, its arguments in the order of the options' fields. The
  message goes through the \<^verbatim>\<open>Error\<close> constructor, which converts a
  defined message to a string and throws where that conversion does; the other
  fields are stored as they come.
\<close>

definition WhatsAppError_new ::
    "(int \<Rightarrow> string) \<Rightarrow> jsvalue \<Rightarrow> jsvalue \<Rightarrow> string \<Rightarrow> int \<Rightarrow> string option
     \<Rightarrow> js_error + WhatsAppError" where
  "WhatsAppError_new number_to_string msg c t st d =
     andThen (if msg = JUndefined then Inr [] else js_to_string number_to_string msg) (\<lambda>text.
       Inr \<lparr>name = ''WhatsAppError'', message = text,
            code = c, title = t, httpStatus = st, details = d\<rparr>)"

text \<open>
  The builder. The fields of the options are computed in the order of the
  source (message, code, title, status, details), the two template literals and
  \<^verbatim>\<open>String(...)\<close> converting as they go, and the constructor runs last.
\<close>

definition fromApiResponse ::
    "(int \<Rightarrow> string) \<Rightarrow> jsvalue \<Rightarrow> int \<Rightarrow> js_error + WhatsAppError" where
  "fromApiResponse number_to_string body st =
     andThen (opt_chain body ''error'') (\<lambda>e.
       let err = js_or e (JObj []) in
       andThen (get_prop err ''message'') (\<lambda>m.
       andThen (get_prop err ''code'') (\<lambda>c.
       andThen (get_prop err ''error_subcode'') (\<lambda>sc.
       andThen
         (if truthy sc
          then andThen (js_to_string number_to_string c) (\<lambda>cs.
               andThen (js_to_string number_to_string sc) (\<lambda>scs.
                 Inr (cs @ ''/'' @ scs)))
          else js_to_string number_to_string (js_or c (JStr ''unknown''))) (\<lambda>title.
       andThen (get_prop err ''fbtrace_id'') (\<lambda>tr.
       andThen
         (if truthy tr
          then andThen (js_to_string number_to_string tr) (\<lambda>ts.
                 Inr (Some (''fbtrace_id: '' @ ts)))
          else Inr None) (\<lambda>details.
         WhatsAppError_new number_to_string
           (js_or m (JStr ''Unknown WhatsApp API error''))
           (js_or c (JNum 0))
           title st details)))))))"

text \<open>
  The vendor's field \<open>k\<close>, for stating what the builder derives: the property
  \<open>k\<close> of the body's \<^verbatim>\<open>error\<close> object, and \<^verbatim>\<open>undefined\<close> when the body
  is not an object, has no \<^verbatim>\<open>error\<close> object or that object has no such
  property.
\<close>

definition vendor_field :: "jsvalue \<Rightarrow> string \<Rightarrow> jsvalue" where
  "vendor_field body k =
     (case body of
        JObj kvs \<Rightarrow> (case lookup kvs ''error'' of JObj e \<Rightarrow> lookup e k | _ \<Rightarrow> JUndefined)
      | _ \<Rightarrow> JUndefined)"

text \<open>
  For stating what the builder derives: a value converts to a string without a
  throw when it is no object with a \<^verbatim>\<open>toString\<close> property of its own and
  no array holding, at any depth, such an object; its string form is then what
  the conversion gives.
\<close>

fun stringable :: "jsvalue \<Rightarrow> bool" where
  "stringable (JObj kvs) = (\<not> has_own kvs ''toString'')"
| "stringable (JArr xs) = list_all (\<lambda>x. nullish x \<or> stringable x) xs"
| "stringable _ = True"

definition string_form :: "(int \<Rightarrow> string) \<Rightarrow> jsvalue \<Rightarrow> string" where
  "string_form number_to_string v =
     (case js_to_string number_to_string v of Inr s \<Rightarrow> s | Inl e \<Rightarrow> [])"

section \<open>Request pipeline (client.ts, WhatsApp.request)\<close>

record WhatsAppConfig =
  cfg_phoneNumberId :: string
  cfg_accessToken :: string
  cfg_apiVersion :: "string option"
  cfg_wabaId :: "string option"

record WhatsApp =
  phoneNumberId :: string
  accessToken :: string
  apiVersion :: string
  wabaId :: "string option"

definition DEFAULT_API_VERSION :: string where
  "DEFAULT_API_VERSION = ''v25.0''"

definition GRAPH_URL :: string where
  "GRAPH_URL = ''https://graph.facebook.com''"

definition WhatsApp_new :: "WhatsAppConfig \<Rightarrow> WhatsApp" where
  "WhatsApp_new config =
     \<lparr>phoneNumberId = cfg_phoneNumberId config,
      accessToken = cfg_accessToken config,
      apiVersion = (case cfg_apiVersion config of
                      Some v \<Rightarrow> if v \<noteq> [] then v else DEFAULT_API_VERSION
                    | None \<Rightarrow> DEFAULT_API_VERSION),
      wabaId = cfg_wabaId config\<rparr>"

definition baseUrl :: "WhatsApp \<Rightarrow> string" where
  "baseUrl this = GRAPH_URL @ ''/'' @ apiVersion this"

text \<open>
  A request body is a multipart form (opaque here) or a value to serialise.
  What \<^verbatim>\<open>fetch\<close> receives is the form as it is, or the serialised text.
\<close>

datatype 'f request_body = FormData 'f | JsonValue jsvalue

datatype 'f fetch_body = Multipart 'f | Text string

record 'f RequestOptions =
  opt_method :: "string option"
  opt_body :: "'f request_body option"
  opt_headers :: "(string \<rightharpoonup> string) option"

record 'f RequestInit =
  init_method :: string
  init_headers :: "string \<rightharpoonup> string"
  init_body :: "'f fetch_body option"

text \<open>
  The response as the pipeline reads it: the status, the \<^verbatim>\<open>content-type\<close>
  header (\<^verbatim>\<open>null\<close> when there is none), and what \<^verbatim>\<open>response.json()\<close>
  resolves to (\<open>None\<close> when the body does not decode and the call rejects);
  \<^verbatim>\<open>response.ok\<close> is the transport's flag for a status from 200 to 299.
\<close>

record Response =
  status :: int
  content_type :: "string option"
  json_body :: "jsvalue option"

definition ok :: "Response \<Rightarrow> bool" where
  "ok response = (200 \<le> status response \<and> status response \<le> 299)"

datatype request_result = Decoded jsvalue | Raw Response

text \<open>\<^verbatim>\<open>s.includes(p)\<close>: \<open>p\<close> occurs in \<open>s\<close> as a contiguous run.\<close>

fun starts_with :: "string \<Rightarrow> string \<Rightarrow> bool" where
  "starts_with s [] = True"
| "starts_with [] (p # ps) = False"
| "starts_with (c # cs) (p # ps) = (c = p \<and> starts_with cs ps)"

fun str_includes :: "string \<Rightarrow> string \<Rightarrow> bool" where
  "str_includes [] p = (p = [])"
| "str_includes (c # cs) p = (starts_with (c # cs) p \<or> str_includes cs p)"

text \<open>
  The pipeline, with the transport \<^verbatim>\<open>fetch\<close> (which may itself reject),
  the serialiser \<^verbatim>\<open>JSON.stringify\<close> and the engine's conversion of a
  number to a string (which the error builder uses) as parameters.
\<close>

definition request ::
    "(string \<Rightarrow> 'f RequestInit \<Rightarrow> js_error + Response) \<Rightarrow> (jsvalue \<Rightarrow> string) \<Rightarrow>
     (int \<Rightarrow> string) \<Rightarrow>
     WhatsApp \<Rightarrow> string \<Rightarrow> 'f RequestOptions option \<Rightarrow> js_error + request_result" where
  "request fetch stringify number_to_string this path options =
     (let url = baseUrl this @ ''/'' @ path;
          method = (case options of
                      None \<Rightarrow> ''POST''
                    | Some opts \<Rightarrow> (case opt_method opts of
                                     Some m \<Rightarrow> if m \<noteq> [] then m else ''POST''
                                   | None \<Rightarrow> ''POST''));
          headers = [''Authorization'' \<mapsto> ''Bearer '' @ accessToken this]
                    ++ (case options of
                          None \<Rightarrow> Map.empty
                        | Some opts \<Rightarrow> (case opt_headers opts of None \<Rightarrow> Map.empty | Some h \<Rightarrow> h));
          fetchOptions =
            (case (case options of None \<Rightarrow> None | Some opts \<Rightarrow> opt_body opts) of
               None \<Rightarrow> \<lparr>init_method = method, init_headers = headers, init_body = None\<rparr>
             | Some (FormData f) \<Rightarrow>
                 \<lparr>init_method = method, init_headers = headers, init_body = Some (Multipart f)\<rparr>
             | Some (JsonValue v) \<Rightarrow>
                 \<lparr>init_method = method,
                  init_headers = headers(''Content-Type'' \<mapsto> ''application/json''),
                  init_body = Some (Text (stringify v))\<rparr>)
      in andThen (fetch url fetchOptions) (\<lambda>response.
           let contentType = (case content_type response of
                                Some c \<Rightarrow> if c \<noteq> [] then c else []
                              | None \<Rightarrow> [])
           in if \<not> ok response then
                (let errorBody = (case json_body response of Some b \<Rightarrow> b | None \<Rightarrow> JObj [])
                 in andThen (fromApiResponse number_to_string errorBody (status response))
                      (\<lambda>e. Inl (Thrown e)))
              else if str_includes contentType ''application/json'' then
                (case json_body response of Some b \<Rightarrow> Inr (Decoded b) | None \<Rightarrow> Inl SyntaxError)
              else Inr (Raw response)))"

section \<open>Webhook normalisation (webhook.ts, parseWebhook)\<close>

text \<open>
  An event carries the raw message or status (or the list of errors), the
  resolved contact for a message, and the metadata of its value block.
\<close>

datatype WebhookEvent =
    MessageEvent jsvalue jsvalue jsvalue
  | StatusEvent jsvalue jsvalue
  | ErrorEvent jsvalue jsvalue

fun typeof :: "jsvalue \<Rightarrow> string" where
  "typeof JUndefined = ''undefined''"
| "typeof JNull = ''object''"
| "typeof (JBool _) = ''boolean''"
| "typeof (JNum _) = ''number''"
| "typeof (JStr _) = ''string''"
| "typeof (JArr _) = ''object''"
| "typeof (JObj _) = ''object''"

fun isArray :: "jsvalue \<Rightarrow> bool" where
  "isArray (JArr _) = True"
| "isArray _ = False"

text \<open>
  What \<^verbatim>\<open>for (const x of v)\<close> runs over: the elements of an array, the
  characters of a string, and a \<^verbatim>\<open>TypeError\<close> for every other value.
\<close>

fun iterate :: "jsvalue \<Rightarrow> js_error + jsvalue list" where
  "iterate (JArr xs) = Inr xs"
| "iterate (JStr s) = Inr (map (\<lambda>c. JStr [c]) s)"
| "iterate _ = Inl TypeError"

text \<open>
  A loop over a list whose body updates the state and may throw; a throw ends
  the loop.
\<close>

fun for_of :: "('s \<Rightarrow> 'x \<Rightarrow> js_error + 's) \<Rightarrow> 'x list \<Rightarrow> 's \<Rightarrow> js_error + 's" where
  "for_of body [] s = Inr s"
| "for_of body (x # xs) s = andThen (body s x) (\<lambda>s'. for_of body xs s')"

definition isValidPayload :: "jsvalue \<Rightarrow> js_error + bool" where
  "isValidPayload body =
     (if nullish body \<or> typeof body \<noteq> ''object'' then Inr False
      else andThen (get_prop body ''object'') (\<lambda>obj.
        if \<not> strict_eq obj (JStr ''whatsapp_business_account'') then Inr False
        else andThen (get_prop body ''entry'') (\<lambda>entry.
          if \<not> isArray entry then Inr False else Inr True)))"

text \<open>
  \<^verbatim>\<open>contacts.find(c => c.wa_id === from)\<close>: the first element for which
  the test holds, \<^verbatim>\<open>undefined\<close> when there is none.
\<close>

fun array_find :: "(jsvalue \<Rightarrow> js_error + bool) \<Rightarrow> jsvalue list \<Rightarrow> js_error + jsvalue" where
  "array_find p [] = Inr JUndefined"
| "array_find p (c # cs) = andThen (p c) (\<lambda>b. if b then Inr c else array_find p cs)"

text \<open>
  The contacts arrive as whatever the payload holds under \<^verbatim>\<open>contacts\<close>; a
  value without a \<^verbatim>\<open>find\<close> method makes the call a \<^verbatim>\<open>TypeError\<close>.
\<close>

definition findContact :: "jsvalue \<Rightarrow> jsvalue \<Rightarrow> js_error + jsvalue" where
  "findContact contacts from =
     (case contacts of
        JArr cs \<Rightarrow>
          andThen (array_find (\<lambda>c. andThen (get_prop c ''wa_id'') (\<lambda>w. Inr (strict_eq w from))) cs)
            (\<lambda>match.
               if truthy match then Inr match
               else (case cs of
                       c0 # _ \<Rightarrow> Inr c0
                     | [] \<Rightarrow> Inr (JObj [(''profile'', JObj [(''name'', JStr [])]), (''wa_id'', from)])))
      | _ \<Rightarrow> Inl TypeError)"

text \<open>The three blocks of the loop body, named after their comments in the source.\<close>

definition messages_block ::
    "jsvalue \<Rightarrow> jsvalue \<Rightarrow> WebhookEvent list \<Rightarrow> js_error + WebhookEvent list" where
  "messages_block val metadata events =
     andThen (get_prop val ''messages'') (\<lambda>messages.
       if truthy messages \<and> isArray messages then
         andThen (get_prop val ''contacts'') (\<lambda>cs.
           let contacts = (if nullish cs then JArr [] else cs) in
           andThen (iterate messages) (\<lambda>msgs.
             for_of (\<lambda>evs msg.
                 andThen (get_prop msg ''from'') (\<lambda>from.
                 andThen (findContact contacts from) (\<lambda>contact.
                   Inr (evs @ [MessageEvent msg contact metadata]))))
               msgs events))
       else Inr events)"

definition statuses_block ::
    "jsvalue \<Rightarrow> jsvalue \<Rightarrow> WebhookEvent list \<Rightarrow> js_error + WebhookEvent list" where
  "statuses_block val metadata events =
     andThen (get_prop val ''statuses'') (\<lambda>statuses.
       if truthy statuses \<and> isArray statuses then
         andThen (iterate statuses) (\<lambda>sts.
           for_of (\<lambda>evs st. Inr (evs @ [StatusEvent st metadata])) sts events)
       else Inr events)"

definition errors_block ::
    "jsvalue \<Rightarrow> jsvalue \<Rightarrow> WebhookEvent list \<Rightarrow> js_error + WebhookEvent list" where
  "errors_block val metadata events =
     andThen (get_prop val ''errors'') (\<lambda>errors.
       if truthy errors \<and> isArray errors \<and> (case errors of JArr es \<Rightarrow> 0 < length es | _ \<Rightarrow> False)
       then Inr (events @ [ErrorEvent errors metadata])
       else Inr events)"

text \<open>The body of the inner loop, for one change.\<close>

definition change_body :: "WebhookEvent list \<Rightarrow> jsvalue \<Rightarrow> js_error + WebhookEvent list" where
  "change_body events change =
     andThen (get_prop change ''value'') (\<lambda>val.
     andThen (get_prop val ''metadata'') (\<lambda>metadata.
     andThen (messages_block val metadata events) (\<lambda>events1.
     andThen (statuses_block val metadata events1) (\<lambda>events2.
       errors_block val metadata events2))))"

definition entry_body :: "WebhookEvent list \<Rightarrow> jsvalue \<Rightarrow> js_error + WebhookEvent list" where
  "entry_body events entry =
     andThen (get_prop entry ''changes'') (\<lambda>changes.
     andThen (iterate changes) (\<lambda>cs. for_of change_body cs events))"

definition parseWebhook :: "jsvalue \<Rightarrow> js_error + WebhookEvent list" where
  "parseWebhook body =
     andThen (isValidPayload body) (\<lambda>valid.
       if \<not> valid then Inr []
       else andThen (get_prop body ''entry'') (\<lambda>entry.
            andThen (iterate entry) (\<lambda>entries. for_of entry_body entries [])))"

section \<open>What the normaliser is expected to emit\<close>

text \<open>
  The vocabulary for stating the normaliser's contract, following the spec's
  words and not the code: reading a field of an object (\<^verbatim>\<open>undefined\<close> when
  there is none), the elements of a list (none when the value is not a list),
  and the events of one value block: one message event per message with its
  resolved contact, then one status event per status, then one error event
  when the value-level list of errors is not empty.
\<close>

fun isObject :: "jsvalue \<Rightarrow> bool" where
  "isObject (JObj _) = True"
| "isObject _ = False"

fun field :: "jsvalue \<Rightarrow> string \<Rightarrow> jsvalue" where
  "field (JObj kvs) k = lookup kvs k"
| "field _ k = JUndefined"

fun elements :: "jsvalue \<Rightarrow> jsvalue list" where
  "elements (JArr xs) = xs"
| "elements _ = []"

text \<open>
  Contact resolution in the spec's words: the first listed contact whose
  \<^verbatim>\<open>wa_id\<close> equals the sender; failing that the first listed contact;
  failing that a synthetic contact with an empty name and the sender as its
  identifier.
\<close>

definition wa_id_matches :: "jsvalue \<Rightarrow> jsvalue \<Rightarrow> bool" where
  "wa_id_matches from c = strict_eq (field c ''wa_id'') from"

definition synthetic_contact :: "jsvalue \<Rightarrow> jsvalue" where
  "synthetic_contact from = JObj [(''profile'', JObj [(''name'', JStr [])]), (''wa_id'', from)]"

definition resolved_contact :: "jsvalue list \<Rightarrow> jsvalue \<Rightarrow> jsvalue" where
  "resolved_contact cs from =
     (case find (wa_id_matches from) cs of
        Some c \<Rightarrow> c
      | None \<Rightarrow> (case cs of c0 # _ \<Rightarrow> c0 | [] \<Rightarrow> synthetic_contact from))"

definition expected_value_events :: "jsvalue \<Rightarrow> WebhookEvent list" where
  "expected_value_events val =
     map (\<lambda>m. MessageEvent m
            (resolved_contact (elements (field val ''contacts'')) (field m ''from''))
            (field val ''metadata''))
       (elements (field val ''messages''))
     @ map (\<lambda>s. StatusEvent s (field val ''metadata'')) (elements (field val ''statuses''))
     @ (if elements (field val ''errors'') \<noteq> []
        then [ErrorEvent (field val ''errors'') (field val ''metadata'')] else [])"

text \<open>
  A value block of the shape the payload's type declares, as far as the
  normaliser reads it: the block is there, no message is \<^verbatim>\<open>null\<close>, and
  the contacts are absent or a list of objects. An entry of that shape has a
  list of changes, each with such a value block.
\<close>

definition valid_value :: "jsvalue \<Rightarrow> bool" where
  "valid_value val \<longleftrightarrow>
     \<not> nullish val
     \<and> list_all (\<lambda>m. \<not> nullish m) (elements (field val ''messages''))
     \<and> (nullish (field val ''contacts'')
        \<or> isArray (field val ''contacts'') \<and> list_all isObject (elements (field val ''contacts'')))"

definition valid_entry :: "jsvalue \<Rightarrow> bool" where
  "valid_entry entry \<longleftrightarrow>
     \<not> nullish entry \<and> isArray (field entry ''changes'')
     \<and> list_all (\<lambda>c. \<not> nullish c \<and> valid_value (field c ''value''))
          (elements (field entry ''changes''))"

definition expected_entry_events :: "jsvalue \<Rightarrow> WebhookEvent list" where
  "expected_entry_events entry =
     concat (map (\<lambda>c. expected_value_events (field c ''value'')) (elements (field entry ''changes'')))"

text \<open>
  The payload of the test "should handle messages and statuses in same
  payload", with the fields the normaliser does not read left out.
\<close>

definition sample_payload :: jsvalue where
  "sample_payload =
     JObj [(''object'', JStr ''whatsapp_business_account''),
           (''entry'', JArr [JObj [(''id'', JStr ''WABA_ID''),
              (''changes'', JArr [JObj [
                 (''value'', JObj [
                    (''metadata'', JObj [(''phone_number_id'', JStr ''123'')]),
                    (''contacts'', JArr [JObj [(''profile'', JObj [(''name'', JStr ''X'')]),
                                             (''wa_id'', JStr ''550'')]]),
                    (''messages'', JArr [JObj [(''from'', JStr ''550''), (''id'', JStr ''m1'')]]),
                    (''statuses'', JArr [JObj [(''id'', JStr ''s1''), (''status'', JStr ''read'')]])]),
                 (''field'', JStr ''messages'')]])]])]"

section \<open>Webhook signature\<close>

text \<open>
  Modelled from the spec: \<^verbatim>\<open>validateSignature\<close> and
  \<^verbatim>\<open>parseWebhookWithSignature\<close> are exported by webhook.ts in the client's
  imports and in the tests, but the copy of webhook.ts at hand does not hold
  them. The spec: compute the SHA-256 HMAC of the body under the secret,
  hex-encode it, prefix it with \<^verbatim>\<open>sha256=\<close> and compare it to the header with
  exact string equality. The keyed hash (secret, then body, to hex digest) is a
  parameter, and so is the decoding of the raw body in the wrapper below.
\<close>

definition validateSignature ::
    "(string \<Rightarrow> string \<Rightarrow> string) \<Rightarrow> string \<Rightarrow> string \<Rightarrow> string \<Rightarrow> bool" where
  "validateSignature hmac_sha256_hex rawBody signature appSecret =
     (signature = ''sha256='' @ hmac_sha256_hex appSecret rawBody)"

text \<open>
  Modelled from the spec: the convenience wrapper \<^verbatim>\<open>parseWebhookWithSignature\<close>
  (missing with \<^verbatim>\<open>validateSignature\<close>): the signature check, then the
  normaliser on the decoded body only if the check passes, and the error
  "Invalid webhook signature" if it fails.
\<close>

definition parseWebhookWithSignature ::
    "(string \<Rightarrow> string \<Rightarrow> string) \<Rightarrow> (string \<Rightarrow> js_error + jsvalue) \<Rightarrow>
     string \<Rightarrow> string \<Rightarrow> string \<Rightarrow> js_error + WebhookEvent list" where
  "parseWebhookWithSignature hmac_sha256_hex json_parse rawBody signature appSecret =
     (if \<not> validateSignature hmac_sha256_hex rawBody signature appSecret
      then Inl (Error ''Invalid webhook signature'')
      else andThen (json_parse rawBody) parseWebhook)"

section \<open>Broadcast (client.ts, WhatsApp.broadcastTemplate)\<close>

text \<open>
  \<^verbatim>\<open>xs.slice(start, end)\<close> on integers: a negative bound counts from the
  end, both bounds are clamped to the list, and the result is empty when the
  bounds cross.
\<close>

definition slice :: "'a list \<Rightarrow> int \<Rightarrow> int \<Rightarrow> 'a list" where
  "slice xs start end =
     (let len = int (length xs);
          k = (if start < 0 then max (len + start) 0 else min start len);
          final = (if end < 0 then max (len + end) 0 else min end len)
      in take (nat (final - k)) (drop (nat k) xs))"

text \<open>
  \<^verbatim>\<open>Promise.allSettled\<close> over the outcomes of the sends of one batch. The
  sends settle in some order (\<open>order\<close> lists their positions as they settle);
  each settlement fills the slot of its own position, and the call resolves
  with the slots once all are filled. It never resolves (\<open>None\<close>) while a slot
  stays empty.
\<close>

definition allSettled :: "nat list \<Rightarrow> 'a list \<Rightarrow> 'a list option" where
  "allSettled order promises =
     those (foldl (\<lambda>slots j. if j < length promises then slots[j := Some (promises ! j)] else slots)
              (replicate (length promises) None) order)"

record BroadcastOptions =
  opt_batchSize :: "int option"
  opt_delayMs :: "int option"

text \<open>
  The state of a run: the two lists of the result being built, and the effects
  so far (the recipients of the sends issued, the pauses taken).
\<close>

record 'r BroadcastRun =
  succeeded :: "(string \<times> 'r) list"
  failed :: "(string \<times> js_error) list"
  sent :: "string list"
  slept :: "int list"

text \<open>The inner loop over the settled results of a batch.\<close>

fun collect :: "string list \<Rightarrow> (js_error + 'r) list \<Rightarrow> 'r BroadcastRun \<Rightarrow> 'r BroadcastRun" where
  "collect (to # batch) (r # results) run =
     collect batch results
       (case r of
          Inr v \<Rightarrow> run\<lparr>succeeded := succeeded run @ [(to, v)]\<rparr>
        | Inl e \<Rightarrow> run\<lparr>failed := failed run @ [(to, e)]\<rparr>)"
| "collect _ _ run = run"

text \<open>
  The batch loop. \<open>sendTemplate n to\<close> is the outcome of the call
  \<^verbatim>\<open>this.sendTemplate(to, templateName, languageCode, components)\<close> issued
  after \<open>n\<close> earlier sends (the template arguments are the same for every
  call); \<open>completion i\<close> is the order in which the sends of the batch that
  starts at \<open>i\<close> settle. The fuel bounds the number of times the loop body
  runs: \<open>None\<close> means the loop has not returned within it.
\<close>

fun broadcast_loop ::
    "(nat \<Rightarrow> string \<Rightarrow> js_error + 'r) \<Rightarrow> (int \<Rightarrow> nat list) \<Rightarrow> string list \<Rightarrow> int \<Rightarrow> int \<Rightarrow>
     nat \<Rightarrow> int \<Rightarrow> 'r BroadcastRun \<Rightarrow> 'r BroadcastRun option" where
  "broadcast_loop sendTemplate completion recipients batchSize delayMs fuel i run =
     (if i < int (length recipients) then
        (case fuel of
           0 \<Rightarrow> None
         | Suc fuel' \<Rightarrow>
             (let batch = slice recipients i (i + batchSize);
                  promises = map (\<lambda>(n, to). sendTemplate n to)
                               (enumerate (length (sent run)) batch);
                  run1 = run\<lparr>sent := sent run @ batch\<rparr>
              in case allSettled (completion i) promises of
                   None \<Rightarrow> None
                 | Some results \<Rightarrow>
                     (let run2 = collect batch results run1;
                          run3 = (if i + batchSize < int (length recipients) \<and> 0 < delayMs
                                  then run2\<lparr>slept := slept run2 @ [delayMs]\<rparr> else run2)
                      in broadcast_loop sendTemplate completion recipients batchSize delayMs
                           fuel' (i + batchSize) run3)))
      else Some run)"

definition batchSize_of :: "BroadcastOptions option \<Rightarrow> int" where
  "batchSize_of options =
     (case options of
        None \<Rightarrow> 50
      | Some opts \<Rightarrow> (case opt_batchSize opts of None \<Rightarrow> 50 | Some b \<Rightarrow> b))"

definition delayMs_of :: "BroadcastOptions option \<Rightarrow> int" where
  "delayMs_of options =
     (case options of
        None \<Rightarrow> 100
      | Some opts \<Rightarrow> (case opt_delayMs opts of None \<Rightarrow> 100 | Some d \<Rightarrow> d))"

definition broadcastTemplate ::
    "(nat \<Rightarrow> string \<Rightarrow> js_error + 'r) \<Rightarrow> (int \<Rightarrow> nat list) \<Rightarrow> string list \<Rightarrow>
     BroadcastOptions option \<Rightarrow> nat \<Rightarrow> 'r BroadcastRun option" where
  "broadcastTemplate sendTemplate completion recipients options fuel =
     (let batchSize = batchSize_of options;
          delayMs = delayMs_of options
      in broadcast_loop sendTemplate completion recipients batchSize delayMs fuel 0
           \<lparr>succeeded = [], failed = [], sent = [], slept = []\<rparr>)"

section \<open>What a broadcast is expected to collect\<close>

text \<open>
  The vocabulary for stating the dispatcher's contract: the recipients paired
  with the outcomes of their sends (numbered from \<open>k\<close> in the order of the
  list), the pairs whose send succeeded and those whose send failed, and the
  condition that every send of every batch settles, each exactly once, in
  whatever order (the \<open>k\<close>-th batch starts at \<open>k\<close> times the batch size).
\<close>

definition outcomes ::
    "(nat \<Rightarrow> string \<Rightarrow> js_error + 'r) \<Rightarrow> nat \<Rightarrow> string list \<Rightarrow> (string \<times> (js_error + 'r)) list" where
  "outcomes sendTemplate k recipients =
     map (\<lambda>(n, to). (to, sendTemplate n to)) (enumerate k recipients)"

fun succeeded_pairs :: "(string \<times> (js_error + 'r)) list \<Rightarrow> (string \<times> 'r) list" where
  "succeeded_pairs [] = []"
| "succeeded_pairs ((to, Inr v) # rest) = (to, v) # succeeded_pairs rest"
| "succeeded_pairs ((to, Inl e) # rest) = succeeded_pairs rest"

fun failed_pairs :: "(string \<times> (js_error + 'r)) list \<Rightarrow> (string \<times> js_error) list" where
  "failed_pairs [] = []"
| "failed_pairs ((to, Inr v) # rest) = failed_pairs rest"
| "failed_pairs ((to, Inl e) # rest) = (to, e) # failed_pairs rest"

definition all_settle :: "(int \<Rightarrow> nat list) \<Rightarrow> string list \<Rightarrow> int \<Rightarrow> bool" where
  "all_settle completion recipients batchSize \<longleftrightarrow>
     list_all (\<lambda>k. int k * batchSize < int (length recipients) \<longrightarrow>
                 mset (completion (int k * batchSize))
                   = mset [0..<length (slice recipients (int k * batchSize)
                                         (int k * batchSize + batchSize))])
       [0..<length recipients]"

text \<open>One run of the loop body, when every send of the batch settles.\<close>

definition after_batch ::
    "(nat \<Rightarrow> string \<Rightarrow> js_error + 'r) \<Rightarrow> string list \<Rightarrow> int \<Rightarrow> int \<Rightarrow> int \<Rightarrow>
     'r BroadcastRun \<Rightarrow> 'r BroadcastRun" where
  "after_batch send recipients b d i run =
     (let batch = slice recipients i (i + b) in
      run\<lparr>succeeded := succeeded run @ succeeded_pairs (outcomes send (length (sent run)) batch),
          failed := failed run @ failed_pairs (outcomes send (length (sent run)) batch),
          sent := sent run @ batch,
          slept := slept run @ (if i + b < int (length recipients) \<and> 0 < d then [d] else [])\<rparr>)"

section \<open>Basic facts\<close>

declare broadcast_loop.simps [simp del]

lemma andThen_Inr [simp]: "andThen (Inr x) f = f x"
  by (simp add: andThen_def)

lemma andThen_Inl [simp]: "andThen (Inl e) f = Inl e"
  by (simp add: andThen_def)

lemma nat_digits_small [simp]: "n < 10 \<Longrightarrow> nat_digits n = [digit_char n]"
  by (simp add: nat_digits.simps)

lemma nat_digits_big [simp]:
  "10 \<le> n \<Longrightarrow> nat_digits n = nat_digits (n div 10) @ [digit_char (n mod 10)]"
  by (subst nat_digits.simps) simp

section \<open>Properties of the handshake\<close>

lemma verifyWebhook_Inr_iff:
  "verifyWebhook q t = Inr c \<longleftrightarrow>
      hub_mode q = Some ''subscribe'' \<and> hub_verify_token q = Some t
      \<and> hub_challenge q = Some c \<and> c \<noteq> []"
  by (cases "hub_challenge q") (auto simp: verifyWebhook_def)

lemma verifyWebhook_Inl:
  "verifyWebhook q t = Inl e \<Longrightarrow> e = Error ''Webhook verification failed''"
  by (cases "hub_challenge q") (auto simp: verifyWebhook_def split: if_splits)

lemma verifyWebhook_Inl_iff:
  "verifyWebhook q t = Inl (Error ''Webhook verification failed'') \<longleftrightarrow>
      \<not> (hub_mode q = Some ''subscribe'' \<and> hub_verify_token q = Some t
         \<and> (\<exists>c'. hub_challenge q = Some c' \<and> c' \<noteq> []))"
  by (cases "hub_challenge q") (auto simp: verifyWebhook_def)

text \<open>
  C7, as stated, read with "present" as "the query carries a challenge value":
  the query with mode subscribe, the expected token and the empty challenge has
  a challenge value, and the handshake throws instead of returning it.
\<close>

theorem verifyWebhook_present_counterexample:
  "hub_challenge \<lparr>hub_mode = Some ''subscribe'', hub_verify_token = Some ''T'',
       hub_challenge = Some ''''\<rparr> \<noteq> None
   \<and> verifyWebhook \<lparr>hub_mode = Some ''subscribe'', hub_verify_token = Some ''T'',
       hub_challenge = Some ''''\<rparr> ''T'' = Inl (Error ''Webhook verification failed'')"
  by (simp add: verifyWebhook_def)

text \<open>
  C7, amended: the handshake returns the challenge exactly when the mode is the
  literal subscribe, the supplied token is the expected one and the challenge is
  present and not the empty string; in every other case it throws the error
  "Webhook verification failed". The query (subscribe, T, C) returns C against
  the expected token T and throws against the expected token X.
\<close>

theorem verifyWebhook_iff:
  "(verifyWebhook q t = Inr c \<longleftrightarrow>
      hub_mode q = Some ''subscribe'' \<and> hub_verify_token q = Some t
      \<and> hub_challenge q = Some c \<and> c \<noteq> [])
   \<and> (verifyWebhook q t = Inl (Error ''Webhook verification failed'') \<longleftrightarrow>
      \<not> (hub_mode q = Some ''subscribe'' \<and> hub_verify_token q = Some t
         \<and> (\<exists>c'. hub_challenge q = Some c' \<and> c' \<noteq> [])))
   \<and> (\<forall>e. verifyWebhook q t = Inl e \<longrightarrow> e = Error ''Webhook verification failed'')
   \<and> verifyWebhook \<lparr>hub_mode = Some ''subscribe'', hub_verify_token = Some ''T'',
         hub_challenge = Some ''C''\<rparr> ''T'' = Inr ''C''
   \<and> verifyWebhook \<lparr>hub_mode = Some ''subscribe'', hub_verify_token = Some ''T'',
         hub_challenge = Some ''C''\<rparr> ''X'' = Inl (Error ''Webhook verification failed'')"
proof (intro conjI)
  show "verifyWebhook q t = Inr c \<longleftrightarrow>
      hub_mode q = Some ''subscribe'' \<and> hub_verify_token q = Some t
      \<and> hub_challenge q = Some c \<and> c \<noteq> []"
    by (rule verifyWebhook_Inr_iff)
  show "verifyWebhook q t = Inl (Error ''Webhook verification failed'') \<longleftrightarrow>
      \<not> (hub_mode q = Some ''subscribe'' \<and> hub_verify_token q = Some t
         \<and> (\<exists>c'. hub_challenge q = Some c' \<and> c' \<noteq> []))"
    by (rule verifyWebhook_Inl_iff)
  show "\<forall>e. verifyWebhook q t = Inl e \<longrightarrow> e = Error ''Webhook verification failed''"
    using verifyWebhook_Inl by blast
  show "verifyWebhook \<lparr>hub_mode = Some ''subscribe'', hub_verify_token = Some ''T'',
         hub_challenge = Some ''C''\<rparr> ''T'' = Inr ''C''"
    by (simp add: verifyWebhook_def)
  show "verifyWebhook \<lparr>hub_mode = Some ''subscribe'', hub_verify_token = Some ''T'',
         hub_challenge = Some ''C''\<rparr> ''X'' = Inl (Error ''Webhook verification failed'')"
    by (simp add: verifyWebhook_def)
qed

theorem verifyWebhook_iff_witness:
  "verifyWebhook \<lparr>hub_mode = Some ''subscribe'', hub_verify_token = Some ''my-token'',
       hub_challenge = Some ''challenge123''\<rparr> ''my-token'' = Inr ''challenge123''
   \<and> verifyWebhook \<lparr>hub_mode = Some ''unsubscribe'', hub_verify_token = Some ''my-token'',
       hub_challenge = Some ''c''\<rparr> ''my-token'' = Inl (Error ''Webhook verification failed'')"
proof (rule conjI)
  show "verifyWebhook \<lparr>hub_mode = Some ''subscribe'', hub_verify_token = Some ''my-token'',
       hub_challenge = Some ''challenge123''\<rparr> ''my-token'' = Inr ''challenge123''"
    using verifyWebhook_iff [of "\<lparr>hub_mode = Some ''subscribe'', hub_verify_token = Some ''my-token'',
       hub_challenge = Some ''challenge123''\<rparr>" "''my-token''" "''challenge123''", THEN conjunct1]
    by simp
  show "verifyWebhook \<lparr>hub_mode = Some ''unsubscribe'', hub_verify_token = Some ''my-token'',
       hub_challenge = Some ''c''\<rparr> ''my-token'' = Inl (Error ''Webhook verification failed'')"
    using verifyWebhook_iff [of "\<lparr>hub_mode = Some ''unsubscribe'', hub_verify_token = Some ''my-token'',
       hub_challenge = Some ''c''\<rparr>" "''my-token''" "''c''", THEN conjunct2, THEN conjunct1]
    by simp
qed

text \<open>
  C9: with mode subscribe and the expected token, an empty challenge makes the
  handshake throw the verification error; it does not return the empty string.
\<close>

theorem verifyWebhook_empty_challenge:
  "hub_mode q = Some ''subscribe'' \<Longrightarrow> hub_verify_token q = Some t \<Longrightarrow>
   hub_challenge q = Some '''' \<Longrightarrow>
   verifyWebhook q t = Inl (Error ''Webhook verification failed'') \<and> verifyWebhook q t \<noteq> Inr ''''"
  by (simp add: verifyWebhook_def)

theorem verifyWebhook_empty_challenge_witness:
  "verifyWebhook \<lparr>hub_mode = Some ''subscribe'', hub_verify_token = Some ''T'',
       hub_challenge = Some ''''\<rparr> ''T'' = Inl (Error ''Webhook verification failed'')"
  using verifyWebhook_empty_challenge [of "\<lparr>hub_mode = Some ''subscribe'',
       hub_verify_token = Some ''T'', hub_challenge = Some ''''\<rparr>" "''T''"]
  by simp

section \<open>Properties of the error taxonomy\<close>

lemma conversion_cases:
  "(stringable v \<longrightarrow> (\<exists>s. js_to_string p v = Inr s))
     \<and> (\<not> stringable v \<longrightarrow> js_to_string p v = Inl TypeError)"
  "(list_all (\<lambda>x. nullish x \<or> stringable x) xs \<longrightarrow> (\<exists>ss. elements_to_strings p xs = Inr ss))
     \<and> (\<not> list_all (\<lambda>x. nullish x \<or> stringable x) xs \<longrightarrow> elements_to_strings p xs = Inl TypeError)"
proof (induction p v and p xs rule: js_to_string_elements_to_strings.induct)
  case (6 p xs)
  then show ?case by (auto split: sum.splits)
next
  case (9 p x xs)
  show ?case
  proof (cases "nullish x")
    case True
    with 9 show ?thesis by (auto split: sum.splits)
  next
    case False
    with 9 show ?thesis by (auto split: sum.splits)
  qed
qed simp_all

lemma js_to_string_stringable:
  "stringable v \<Longrightarrow> js_to_string p v = Inr (string_form p v)"
  using conversion_cases(1) [of v p] by (auto simp: string_form_def)

lemma js_to_string_throws:
  "\<not> stringable v \<Longrightarrow> js_to_string p v = Inl TypeError"
  using conversion_cases(1) [of v p] by simp

lemma not_stringable_truthy: "\<not> stringable v \<Longrightarrow> truthy v \<and> v \<noteq> JUndefined"
  by (cases v) simp_all

text \<open>The error object the builder reads from, and what its reads give.\<close>

lemma err_object_reads:
  "\<exists>e. opt_chain body ''error'' = Inr e
       \<and> (\<forall>k. get_prop (js_or e (JObj [])) k = Inr (vendor_field body k))"
proof (cases body)
  case (JObj kvs)
  show ?thesis
  proof (cases "lookup kvs ''error''")
    case (JObj e)
    with \<open>body = JObj kvs\<close> show ?thesis
      by (simp add: opt_chain_def js_or_def vendor_field_def)
  qed (use \<open>body = JObj kvs\<close> in \<open>simp_all add: opt_chain_def js_or_def vendor_field_def\<close>)
qed (simp_all add: opt_chain_def js_or_def vendor_field_def)

text \<open>The builder with the reads of the error object resolved.\<close>

lemma fromApiResponse_reads:
  "fromApiResponse p body st =
     andThen
       (if truthy (vendor_field body ''error_subcode'')
        then andThen (js_to_string p (vendor_field body ''code'')) (\<lambda>cs.
             andThen (js_to_string p (vendor_field body ''error_subcode'')) (\<lambda>scs.
               Inr (cs @ ''/'' @ scs)))
        else js_to_string p (js_or (vendor_field body ''code'') (JStr ''unknown''))) (\<lambda>title.
     andThen
       (if truthy (vendor_field body ''fbtrace_id'')
        then andThen (js_to_string p (vendor_field body ''fbtrace_id'')) (\<lambda>ts.
               Inr (Some (''fbtrace_id: '' @ ts)))
        else Inr None) (\<lambda>details.
       WhatsAppError_new p
         (js_or (vendor_field body ''message'') (JStr ''Unknown WhatsApp API error''))
         (js_or (vendor_field body ''code'') (JNum 0))
         title st details))"
proof -
  obtain e where e: "opt_chain body ''error'' = Inr e"
    and reads: "\<And>k. get_prop (js_or e (JObj [])) k = Inr (vendor_field body k)"
    using err_object_reads by blast
  show ?thesis
    unfolding fromApiResponse_def e
    by (simp only: andThen_Inr Let_def reads)
qed

lemma title_stringable:
  assumes "stringable c" and "stringable sc"
  shows "(if truthy sc
          then andThen (js_to_string p c) (\<lambda>cs.
               andThen (js_to_string p sc) (\<lambda>scs. Inr (cs @ ''/'' @ scs)))
          else js_to_string p (js_or c (JStr ''unknown'')))
         = Inr (if truthy sc then string_form p c @ ''/'' @ string_form p sc
                else if truthy c then string_form p c else ''unknown'')"
proof -
  have "string_form p (JStr ''unknown'') = ''unknown''"
    by (simp add: string_form_def)
  with assms show ?thesis
    by (simp add: js_to_string_stringable js_or_def)
qed

lemma title_throws:
  assumes "\<not> stringable c \<or> \<not> stringable sc"
  shows "(if truthy sc
          then andThen (js_to_string p c) (\<lambda>cs.
               andThen (js_to_string p sc) (\<lambda>scs. Inr (cs @ ''/'' @ scs)))
          else js_to_string p (js_or c (JStr ''unknown'')))
         = Inl TypeError"
proof (cases "stringable c")
  case False
  then show ?thesis
    using not_stringable_truthy [of c] by (simp add: js_to_string_throws js_or_def)
next
  case True
  with assms have sc: "\<not> stringable sc" by simp
  then have "truthy sc" using not_stringable_truthy by blast
  with True sc show ?thesis
    by (simp add: js_to_string_stringable js_to_string_throws)
qed

lemma details_stringable:
  assumes "stringable tr"
  shows "(if truthy tr
          then andThen (js_to_string p tr) (\<lambda>ts. Inr (Some (''fbtrace_id: '' @ ts)))
          else Inr None)
         = Inr (if truthy tr then Some (''fbtrace_id: '' @ string_form p tr) else None)"
  using assms by (simp add: js_to_string_stringable)

lemma details_throws:
  assumes "\<not> stringable tr"
  shows "(if truthy tr
          then andThen (js_to_string p tr) (\<lambda>ts. Inr (Some (''fbtrace_id: '' @ ts)))
          else Inr None)
         = Inl TypeError"
  using assms not_stringable_truthy [of tr] by (simp add: js_to_string_throws)

lemma new_stringable:
  assumes "stringable m"
  shows "WhatsAppError_new p (js_or m (JStr ''Unknown WhatsApp API error'')) c t st d
         = Inr \<lparr>name = ''WhatsAppError'',
                message = (if truthy m then string_form p m else ''Unknown WhatsApp API error''),
                code = c, title = t, httpStatus = st, details = d\<rparr>"
proof (cases "truthy m")
  case True
  then have "m \<noteq> JUndefined" by auto
  with True assms show ?thesis
    by (simp add: WhatsAppError_new_def js_or_def js_to_string_stringable)
next
  case False
  then show ?thesis
    by (simp add: WhatsAppError_new_def js_or_def)
qed

lemma new_throws:
  assumes "\<not> stringable m"
  shows "WhatsAppError_new p (js_or m (JStr ''Unknown WhatsApp API error'')) c t st d
         = Inl TypeError"
  using assms not_stringable_truthy [of m]
  by (simp add: WhatsAppError_new_def js_or_def js_to_string_throws)

lemma fromApiResponse_fields:
  assumes "stringable (vendor_field body ''message'')"
    and "stringable (vendor_field body ''code'')"
    and "stringable (vendor_field body ''error_subcode'')"
    and "stringable (vendor_field body ''fbtrace_id'')"
  shows "fromApiResponse p body st =
     Inr \<lparr>name = ''WhatsAppError'',
          message = (if truthy (vendor_field body ''message'')
                     then string_form p (vendor_field body ''message'')
                     else ''Unknown WhatsApp API error''),
          code = (if truthy (vendor_field body ''code'') then vendor_field body ''code'' else JNum 0),
          title = (if truthy (vendor_field body ''error_subcode'')
                   then string_form p (vendor_field body ''code'') @ ''/''
                        @ string_form p (vendor_field body ''error_subcode'')
                   else if truthy (vendor_field body ''code'')
                        then string_form p (vendor_field body ''code'')
                        else ''unknown''),
          httpStatus = st,
          details = (if truthy (vendor_field body ''fbtrace_id'')
                     then Some (''fbtrace_id: '' @ string_form p (vendor_field body ''fbtrace_id''))
                     else None)\<rparr>"
  unfolding fromApiResponse_reads
  by (simp only: title_stringable [OF assms(2,3)] details_stringable [OF assms(4)]
        andThen_Inr new_stringable [OF assms(1)])
     (simp add: js_or_def)

lemma fromApiResponse_throws:
  assumes "\<not> (stringable (vendor_field body ''message'')
      \<and> stringable (vendor_field body ''code'')
      \<and> stringable (vendor_field body ''error_subcode'')
      \<and> stringable (vendor_field body ''fbtrace_id''))"
  shows "fromApiResponse p body st = Inl TypeError"
proof (cases "stringable (vendor_field body ''code'') \<and> stringable (vendor_field body ''error_subcode'')")
  case False
  then have "\<not> stringable (vendor_field body ''code'') \<or> \<not> stringable (vendor_field body ''error_subcode'')"
    by simp
  then show ?thesis
    unfolding fromApiResponse_reads
    by (simp only: title_throws andThen_Inl)
next
  case True
  note title = title_stringable [OF conjunct1 [OF True] conjunct2 [OF True]]
  show ?thesis
  proof (cases "stringable (vendor_field body ''fbtrace_id'')")
    case False
    show ?thesis
      unfolding fromApiResponse_reads
      by (simp only: title andThen_Inr details_throws [OF False] andThen_Inl)
  next
    case tr: True
    with True assms have m: "\<not> stringable (vendor_field body ''message'')" by simp
    show ?thesis
      unfolding fromApiResponse_reads
      by (simp only: title andThen_Inr details_stringable [OF tr] new_throws [OF m])
  qed
qed

lemma fromApiResponse_outcome:
  "(\<exists>e. fromApiResponse p body st = Inr e) \<or> fromApiResponse p body st = Inl TypeError"
  using fromApiResponse_fields [of body p st] fromApiResponse_throws [of body p st]
  by blast

text \<open>
  C4, as stated, at two bodies. The claim has the builder never throw: for the
  body whose error message is the object with a \<^verbatim>\<open>toString\<close> property of
  its own, the builder throws a \<^verbatim>\<open>TypeError\<close>. The claim has the title
  code/subcode when a sub-code is present: the vendor body of the repository's
  broadcast test carries the sub-code 0, the builder tests the sub-code for
  truthiness, and the title is the code alone.
\<close>

theorem fromApiResponse_counterexample:
  "fromApiResponse decimal
       (JObj [(''error'', JObj [(''message'', JObj [(''toString'', JNum 1)])])]) 400
     = Inl TypeError
   \<and> vendor_field (JObj [(''error'', JObj [(''message'', JStr ''Bad''), (''code'', JNum 100),
       (''error_subcode'', JNum 0)])]) ''error_subcode'' = JNum 0
   \<and> fromApiResponse decimal (JObj [(''error'', JObj [(''message'', JStr ''Bad''), (''code'', JNum 100),
       (''error_subcode'', JNum 0)])]) 400
       = Inr \<lparr>name = ''WhatsAppError'', message = ''Bad'', code = JNum 100, title = ''100'',
               httpStatus = 400, details = None\<rparr>"
  by (simp add: vendor_field_def fromApiResponse_def opt_chain_def js_or_def Let_def
        WhatsAppError_new_def decimal_def digit_char_def)

text \<open>
  C4, amended: for every body and status, provided none of the vendor message,
  code, sub-code and trace id is an object with a \<^verbatim>\<open>toString\<close> property of
  its own or an array holding, at any depth, such an object, the builder returns one fully
  populated error value and does not throw, where a vendor field counts as
  present when it is truthy (an absent field, 0, the empty string, null and
  false count as absent): the code is the vendor code when present, else 0; the
  title is code/subcode, both in string form, when the sub-code is present,
  else the string form of the code when the code is present, else "unknown";
  the message is the string form of the vendor message when present, else
  "Unknown WhatsApp API error"; the details are "fbtrace_id: " and the string
  form of the trace id when the trace id is present, else absent. A body
  missing every field gives code 0, title "unknown", the fallback message and
  no details. The title takes the vendor code as it is, not the defaulted one:
  a body with a sub-code and no code gives the title "undefined/" and the
  sub-code, with code 0.
\<close>

theorem fromApiResponse_derives:
  "(stringable (vendor_field body ''message'') \<and> stringable (vendor_field body ''code'')
      \<and> stringable (vendor_field body ''error_subcode'')
      \<and> stringable (vendor_field body ''fbtrace_id'') \<longrightarrow>
    fromApiResponse p body st =
     Inr \<lparr>name = ''WhatsAppError'',
          message = (if truthy (vendor_field body ''message'')
                     then string_form p (vendor_field body ''message'')
                     else ''Unknown WhatsApp API error''),
          code = (if truthy (vendor_field body ''code'') then vendor_field body ''code'' else JNum 0),
          title = (if truthy (vendor_field body ''error_subcode'')
                   then string_form p (vendor_field body ''code'') @ ''/''
                        @ string_form p (vendor_field body ''error_subcode'')
                   else if truthy (vendor_field body ''code'')
                        then string_form p (vendor_field body ''code'')
                        else ''unknown''),
          httpStatus = st,
          details = (if truthy (vendor_field body ''fbtrace_id'')
                     then Some (''fbtrace_id: '' @ string_form p (vendor_field body ''fbtrace_id''))
                     else None)\<rparr>)
   \<and> (vendor_field body ''message'' = JUndefined \<and> vendor_field body ''code'' = JUndefined
        \<and> vendor_field body ''error_subcode'' = JUndefined
        \<and> vendor_field body ''fbtrace_id'' = JUndefined \<longrightarrow>
      fromApiResponse p body st =
        Inr \<lparr>name = ''WhatsAppError'', message = ''Unknown WhatsApp API error'', code = JNum 0,
             title = ''unknown'', httpStatus = st, details = None\<rparr>)
   \<and> (vendor_field body ''code'' = JUndefined \<and> truthy (vendor_field body ''error_subcode'')
        \<and> stringable (vendor_field body ''message'')
        \<and> stringable (vendor_field body ''error_subcode'')
        \<and> stringable (vendor_field body ''fbtrace_id'') \<longrightarrow>
      (\<exists>w. fromApiResponse p body st = Inr w \<and> code w = JNum 0
         \<and> title w = ''undefined/'' @ string_form p (vendor_field body ''error_subcode'')))"
proof (intro conjI impI)
  assume "stringable (vendor_field body ''message'') \<and> stringable (vendor_field body ''code'')
      \<and> stringable (vendor_field body ''error_subcode'')
      \<and> stringable (vendor_field body ''fbtrace_id'')"
  then show "fromApiResponse p body st =
     Inr \<lparr>name = ''WhatsAppError'',
          message = (if truthy (vendor_field body ''message'')
                     then string_form p (vendor_field body ''message'')
                     else ''Unknown WhatsApp API error''),
          code = (if truthy (vendor_field body ''code'') then vendor_field body ''code'' else JNum 0),
          title = (if truthy (vendor_field body ''error_subcode'')
                   then string_form p (vendor_field body ''code'') @ ''/''
                        @ string_form p (vendor_field body ''error_subcode'')
                   else if truthy (vendor_field body ''code'')
                        then string_form p (vendor_field body ''code'')
                        else ''unknown''),
          httpStatus = st,
          details = (if truthy (vendor_field body ''fbtrace_id'')
                     then Some (''fbtrace_id: '' @ string_form p (vendor_field body ''fbtrace_id''))
                     else None)\<rparr>"
    by (intro fromApiResponse_fields) simp_all
next
  assume "vendor_field body ''message'' = JUndefined \<and> vendor_field body ''code'' = JUndefined
        \<and> vendor_field body ''error_subcode'' = JUndefined
        \<and> vendor_field body ''fbtrace_id'' = JUndefined"
  then show "fromApiResponse p body st =
        Inr \<lparr>name = ''WhatsAppError'', message = ''Unknown WhatsApp API error'', code = JNum 0,
             title = ''unknown'', httpStatus = st, details = None\<rparr>"
    by (simp add: fromApiResponse_fields)
next
  assume a: "vendor_field body ''code'' = JUndefined \<and> truthy (vendor_field body ''error_subcode'')
        \<and> stringable (vendor_field body ''message'')
        \<and> stringable (vendor_field body ''error_subcode'')
        \<and> stringable (vendor_field body ''fbtrace_id'')"
  have u: "string_form p JUndefined = ''undefined''"
    by (simp add: string_form_def)
  from a show "\<exists>w. fromApiResponse p body st = Inr w \<and> code w = JNum 0
         \<and> title w = ''undefined/'' @ string_form p (vendor_field body ''error_subcode'')"
    by (simp add: fromApiResponse_fields u)
qed

theorem fromApiResponse_derives_witness:
  "fromApiResponse decimal
     (JObj [(''error'', JObj [(''message'', JStr ''(#131030) Recipient not in allowed list''),
        (''type'', JStr ''OAuthException''), (''code'', JNum 131030),
        (''error_subcode'', JNum 2494010), (''fbtrace_id'', JStr ''abc123'')])]) 400
     = Inr \<lparr>name = ''WhatsAppError'', message = ''(#131030) Recipient not in allowed list'',
             code = JNum 131030, title = ''131030/2494010'', httpStatus = 400,
             details = Some ''fbtrace_id: abc123''\<rparr>
   \<and> fromApiResponse decimal (JObj []) 500 =
     Inr \<lparr>name = ''WhatsAppError'', message = ''Unknown WhatsApp API error'', code = JNum 0,
          title = ''unknown'', httpStatus = 500, details = None\<rparr>
   \<and> (\<exists>w. fromApiResponse decimal (JObj [(''error'', JObj [(''error_subcode'', JNum 33)])]) 400
            = Inr w \<and> code w = JNum 0 \<and> title w = ''undefined/33'')"
proof (intro conjI)
  show "fromApiResponse decimal
     (JObj [(''error'', JObj [(''message'', JStr ''(#131030) Recipient not in allowed list''),
        (''type'', JStr ''OAuthException''), (''code'', JNum 131030),
        (''error_subcode'', JNum 2494010), (''fbtrace_id'', JStr ''abc123'')])]) 400
     = Inr \<lparr>name = ''WhatsAppError'', message = ''(#131030) Recipient not in allowed list'',
             code = JNum 131030, title = ''131030/2494010'', httpStatus = 400,
             details = Some ''fbtrace_id: abc123''\<rparr>"
    using fromApiResponse_derives [of
        "JObj [(''error'', JObj [(''message'', JStr ''(#131030) Recipient not in allowed list''),
        (''type'', JStr ''OAuthException''), (''code'', JNum 131030),
        (''error_subcode'', JNum 2494010), (''fbtrace_id'', JStr ''abc123'')])]" decimal 400,
        THEN conjunct1]
    by (simp add: vendor_field_def string_form_def decimal_def digit_char_def)
  show "fromApiResponse decimal (JObj []) 500 =
     Inr \<lparr>name = ''WhatsAppError'', message = ''Unknown WhatsApp API error'', code = JNum 0,
          title = ''unknown'', httpStatus = 500, details = None\<rparr>"
    using fromApiResponse_derives [of "JObj []" decimal 500, THEN conjunct2, THEN conjunct1]
    by (simp add: vendor_field_def)
  show "\<exists>w. fromApiResponse decimal (JObj [(''error'', JObj [(''error_subcode'', JNum 33)])]) 400
            = Inr w \<and> code w = JNum 0 \<and> title w = ''undefined/33''"
    using fromApiResponse_derives [of "JObj [(''error'', JObj [(''error_subcode'', JNum 33)])]"
        decimal 400, THEN conjunct2, THEN conjunct2]
    by (simp add: vendor_field_def string_form_def decimal_def digit_char_def)
qed

section \<open>Properties of the request pipeline\<close>

lemma request_after_fetch:
  "request (\<lambda>url init. Inr response) stringify p this path options =
     (if \<not> ok response then
        andThen (fromApiResponse p (case json_body response of Some b \<Rightarrow> b | None \<Rightarrow> JObj [])
                   (status response)) (\<lambda>e. Inl (Thrown e))
      else if str_includes (case content_type response of Some c \<Rightarrow> c | None \<Rightarrow> []) ''application/json''
      then (case json_body response of Some b \<Rightarrow> Inr (Decoded b) | None \<Rightarrow> Inl SyntaxError)
      else Inr (Raw response))"
  unfolding request_def Let_def andThen_Inr
  by (simp split: option.splits)

lemma request_fetch_rejects:
  "(\<And>url init. fetch url init = Inl e) \<Longrightarrow> request fetch stringify p this path options = Inl e"
  unfolding request_def Let_def by simp

text \<open>
  C3, as stated, at two responses. The claim has a status outside [200,300)
  always throw the typed error: for the status 400 with the body whose error
  message is the object with a \<^verbatim>\<open>toString\<close> property of its own, the
  builder itself throws, and the pipeline throws that \<^verbatim>\<open>TypeError\<close>. The
  claim has a success with a JSON content type decoded and returned: for the
  status 200 with a JSON content type and a body that does not decode, the
  pipeline throws the decoder's \<^verbatim>\<open>SyntaxError\<close>.
\<close>

theorem request_counterexample:
  "request (\<lambda>url init. Inr \<lparr>status = 400, content_type = Some ''application/json'',
        json_body = Some (JObj [(''error'', JObj [(''message'', JObj [(''toString'', JNum 1)])])])\<rparr>)
      (\<lambda>v. []) decimal
      \<lparr>phoneNumberId = ''123456789'', accessToken = ''test-token'', apiVersion = ''v25.0'',
       wabaId = None\<rparr> ''123456789/messages'' (None :: unit RequestOptions option)
     = Inl TypeError
   \<and> request (\<lambda>url init. Inr \<lparr>status = 200, content_type = Some ''application/json'',
        json_body = None\<rparr>)
      (\<lambda>v. []) decimal
      \<lparr>phoneNumberId = ''123456789'', accessToken = ''test-token'', apiVersion = ''v25.0'',
       wabaId = None\<rparr> ''123456789/messages'' (None :: unit RequestOptions option)
     = Inl SyntaxError"
  by (simp add: request_after_fetch ok_def fromApiResponse_throws vendor_field_def)

text \<open>
  C3, amended: for every HTTP response the transport hands back, a status
  outside [200,300) always makes the pipeline throw, whatever the body holds,
  and what it throws is the typed error that the builder makes from the decoded
  body and the status (from the empty object when the body does not decode),
  provided none of that body's error message, code, sub-code and trace id is an
  object with a \<^verbatim>\<open>toString\<close> property of its own or an array holding, at
  any depth, such an object; a status in [200,300) with a content type that contains
  application/json returns the decoded body when the body decodes and throws
  the decoder's \<^verbatim>\<open>SyntaxError\<close> when it does not; a status in [200,300)
  with any other content type, or none, returns the raw response.
\<close>

theorem request_classification:
  "(\<not> (200 \<le> status response \<and> status response < 300) \<longrightarrow>
      (\<exists>err. request (\<lambda>url init. Inr response) stringify p this path options = Inl err)
      \<and> (stringable (vendor_field (case json_body response of Some b \<Rightarrow> b | None \<Rightarrow> JObj []) ''message'')
          \<and> stringable (vendor_field (case json_body response of Some b \<Rightarrow> b | None \<Rightarrow> JObj []) ''code'')
          \<and> stringable (vendor_field (case json_body response of Some b \<Rightarrow> b | None \<Rightarrow> JObj [])
                ''error_subcode'')
          \<and> stringable (vendor_field (case json_body response of Some b \<Rightarrow> b | None \<Rightarrow> JObj [])
                ''fbtrace_id'') \<longrightarrow>
         (\<exists>e. fromApiResponse p (case json_body response of Some b \<Rightarrow> b | None \<Rightarrow> JObj [])
                 (status response) = Inr e
              \<and> request (\<lambda>url init. Inr response) stringify p this path options = Inl (Thrown e))))
   \<and> (200 \<le> status response \<and> status response < 300
        \<and> (\<exists>c. content_type response = Some c \<and> str_includes c ''application/json'') \<longrightarrow>
      request (\<lambda>url init. Inr response) stringify p this path options =
        (case json_body response of Some b \<Rightarrow> Inr (Decoded b) | None \<Rightarrow> Inl SyntaxError))
   \<and> (200 \<le> status response \<and> status response < 300
        \<and> \<not> (\<exists>c. content_type response = Some c \<and> str_includes c ''application/json'') \<longrightarrow>
      request (\<lambda>url init. Inr response) stringify p this path options = Inr (Raw response))"
proof (intro conjI impI)
  assume "\<not> (200 \<le> status response \<and> status response < 300)"
  then have nok: "\<not> ok response" by (auto simp: ok_def)
  show "\<exists>err. request (\<lambda>url init. Inr response) stringify p this path options = Inl err"
    using fromApiResponse_outcome
      [of p "case json_body response of Some b \<Rightarrow> b | None \<Rightarrow> JObj []" "status response"] nok
    by (auto simp: request_after_fetch)
next
  assume "\<not> (200 \<le> status response \<and> status response < 300)"
  then have nok: "\<not> ok response" by (auto simp: ok_def)
  assume s: "stringable (vendor_field (case json_body response of Some b \<Rightarrow> b | None \<Rightarrow> JObj []) ''message'')
          \<and> stringable (vendor_field (case json_body response of Some b \<Rightarrow> b | None \<Rightarrow> JObj []) ''code'')
          \<and> stringable (vendor_field (case json_body response of Some b \<Rightarrow> b | None \<Rightarrow> JObj [])
                ''error_subcode'')
          \<and> stringable (vendor_field (case json_body response of Some b \<Rightarrow> b | None \<Rightarrow> JObj [])
                ''fbtrace_id'')"
  have "\<exists>e. fromApiResponse p (case json_body response of Some b \<Rightarrow> b | None \<Rightarrow> JObj [])
                 (status response) = Inr e"
    using s by (simp add: fromApiResponse_fields)
  then obtain e where e: "fromApiResponse p (case json_body response of Some b \<Rightarrow> b | None \<Rightarrow> JObj [])
                 (status response) = Inr e" ..
  with nok have "request (\<lambda>url init. Inr response) stringify p this path options = Inl (Thrown e)"
    by (simp add: request_after_fetch)
  with e show "\<exists>e. fromApiResponse p (case json_body response of Some b \<Rightarrow> b | None \<Rightarrow> JObj [])
                 (status response) = Inr e
              \<and> request (\<lambda>url init. Inr response) stringify p this path options = Inl (Thrown e)"
    by blast
next
  assume a: "200 \<le> status response \<and> status response < 300
        \<and> (\<exists>c. content_type response = Some c \<and> str_includes c ''application/json'')"
  then have "ok response" by (auto simp: ok_def)
  with a show "request (\<lambda>url init. Inr response) stringify p this path options =
        (case json_body response of Some b \<Rightarrow> Inr (Decoded b) | None \<Rightarrow> Inl SyntaxError)"
    by (auto simp: request_after_fetch)
next
  assume a: "200 \<le> status response \<and> status response < 300
        \<and> \<not> (\<exists>c. content_type response = Some c \<and> str_includes c ''application/json'')"
  then have "ok response" by (auto simp: ok_def)
  moreover have "\<not> str_includes (case content_type response of Some c \<Rightarrow> c | None \<Rightarrow> []) ''application/json''"
    using a by (cases "content_type response") auto
  ultimately show "request (\<lambda>url init. Inr response) stringify p this path options = Inr (Raw response)"
    by (simp add: request_after_fetch)
qed

theorem request_classification_witness:
  "request (\<lambda>url init. Inr \<lparr>status = 400, content_type = Some ''application/json'',
        json_body = Some (JObj [(''error'', JObj [(''message'', JStr ''Bad''), (''code'', JNum 100),
          (''error_subcode'', JNum 0)])])\<rparr>) (\<lambda>v. []) decimal
      \<lparr>phoneNumberId = ''123456789'', accessToken = ''test-token'', apiVersion = ''v25.0'',
       wabaId = None\<rparr> ''123456789/messages'' (None :: unit RequestOptions option)
     = Inl (Thrown \<lparr>name = ''WhatsAppError'', message = ''Bad'', code = JNum 100, title = ''100'',
                    httpStatus = 400, details = None\<rparr>)
   \<and> request (\<lambda>url init. Inr \<lparr>status = 200, content_type = Some ''application/json; charset=utf-8'',
        json_body = Some (JObj [(''messaging_product'', JStr ''whatsapp'')])\<rparr>) (\<lambda>v. []) decimal
      \<lparr>phoneNumberId = ''123456789'', accessToken = ''test-token'', apiVersion = ''v25.0'',
       wabaId = None\<rparr> ''123456789/messages'' (None :: unit RequestOptions option)
     = Inr (Decoded (JObj [(''messaging_product'', JStr ''whatsapp'')]))
   \<and> request (\<lambda>url init. Inr \<lparr>status = 200, content_type = Some ''image/jpeg'',
        json_body = None\<rparr>) (\<lambda>v. []) decimal
      \<lparr>phoneNumberId = ''123456789'', accessToken = ''test-token'', apiVersion = ''v25.0'',
       wabaId = None\<rparr> ''media123'' (None :: unit RequestOptions option)
     = Inr (Raw \<lparr>status = 200, content_type = Some ''image/jpeg'', json_body = None\<rparr>)"
proof (intro conjI)
  show "request (\<lambda>url init. Inr \<lparr>status = 400, content_type = Some ''application/json'',
        json_body = Some (JObj [(''error'', JObj [(''message'', JStr ''Bad''), (''code'', JNum 100),
          (''error_subcode'', JNum 0)])])\<rparr>) (\<lambda>v. []) decimal
      \<lparr>phoneNumberId = ''123456789'', accessToken = ''test-token'', apiVersion = ''v25.0'',
       wabaId = None\<rparr> ''123456789/messages'' (None :: unit RequestOptions option)
     = Inl (Thrown \<lparr>name = ''WhatsAppError'', message = ''Bad'', code = JNum 100, title = ''100'',
                    httpStatus = 400, details = None\<rparr>)"
    using request_classification [of "\<lparr>status = 400, content_type = Some ''application/json'',
        json_body = Some (JObj [(''error'', JObj [(''message'', JStr ''Bad''), (''code'', JNum 100),
          (''error_subcode'', JNum 0)])])\<rparr>" "\<lambda>v. []" decimal
        "\<lparr>phoneNumberId = ''123456789'', accessToken = ''test-token'', apiVersion = ''v25.0'',
       wabaId = None\<rparr>" "''123456789/messages''" "None :: unit RequestOptions option",
        THEN conjunct1]
    by (simp add: fromApiResponse_fields vendor_field_def string_form_def decimal_def digit_char_def)
  show "request (\<lambda>url init. Inr \<lparr>status = 200, content_type = Some ''application/json; charset=utf-8'',
        json_body = Some (JObj [(''messaging_product'', JStr ''whatsapp'')])\<rparr>) (\<lambda>v. []) decimal
      \<lparr>phoneNumberId = ''123456789'', accessToken = ''test-token'', apiVersion = ''v25.0'',
       wabaId = None\<rparr> ''123456789/messages'' (None :: unit RequestOptions option)
     = Inr (Decoded (JObj [(''messaging_product'', JStr ''whatsapp'')]))"
    using request_classification [of "\<lparr>status = 200, content_type = Some ''application/json; charset=utf-8'',
        json_body = Some (JObj [(''messaging_product'', JStr ''whatsapp'')])\<rparr>" "\<lambda>v. []" decimal
        "\<lparr>phoneNumberId = ''123456789'', accessToken = ''test-token'', apiVersion = ''v25.0'',
       wabaId = None\<rparr>" "''123456789/messages''" "None :: unit RequestOptions option",
        THEN conjunct2, THEN conjunct1]
    by simp
  show "request (\<lambda>url init. Inr \<lparr>status = 200, content_type = Some ''image/jpeg'',
        json_body = None\<rparr>) (\<lambda>v. []) decimal
      \<lparr>phoneNumberId = ''123456789'', accessToken = ''test-token'', apiVersion = ''v25.0'',
       wabaId = None\<rparr> ''media123'' (None :: unit RequestOptions option)
     = Inr (Raw \<lparr>status = 200, content_type = Some ''image/jpeg'', json_body = None\<rparr>)"
    using request_classification [of "\<lparr>status = 200, content_type = Some ''image/jpeg'',
        json_body = None\<rparr>" "\<lambda>v. []" decimal
        "\<lparr>phoneNumberId = ''123456789'', accessToken = ''test-token'', apiVersion = ''v25.0'',
       wabaId = None\<rparr>" "''media123''" "None :: unit RequestOptions option",
        THEN conjunct2, THEN conjunct2]
    by simp
qed

section \<open>Properties of the webhook normaliser\<close>

lemma get_prop_field: "\<not> nullish v \<Longrightarrow> get_prop v k = Inr (field v k)"
  by (cases v) simp_all

lemma isArray_elements: "isArray v \<Longrightarrow> v = JArr (elements v)"
  by (cases v) simp_all

lemma truthy_isArray: "isArray v \<Longrightarrow> truthy v"
  by (cases v) simp_all

lemma not_isArray_elements: "\<not> isArray v \<Longrightarrow> elements v = []"
  by (cases v) simp_all

lemma isObject_not_nullish: "isObject v \<Longrightarrow> \<not> nullish v"
  by (cases v) simp_all

lemma isObject_truthy: "isObject v \<Longrightarrow> truthy v"
  by (cases v) simp_all

lemma for_of_statuses:
  "for_of (\<lambda>evs st. Inr (evs @ [StatusEvent st md])) sts events
     = Inr (events @ map (\<lambda>s. StatusEvent s md) sts)"
  by (induction sts arbitrary: events) simp_all

lemma array_find_wa_id:
  "list_all isObject cs \<Longrightarrow>
   array_find (\<lambda>c. andThen (get_prop c ''wa_id'') (\<lambda>w. Inr (strict_eq w from))) cs
     = Inr (case find (wa_id_matches from) cs of Some c \<Rightarrow> c | None \<Rightarrow> JUndefined)"
proof (induction cs)
  case Nil
  show ?case by simp
next
  case (Cons c cs)
  then have "get_prop c ''wa_id'' = Inr (field c ''wa_id'')"
    by (simp add: get_prop_field isObject_not_nullish)
  with Cons show ?case
    by (simp add: wa_id_matches_def)
qed

lemma find_isObject:
  "list_all isObject cs \<Longrightarrow> find P cs = Some c \<Longrightarrow> isObject c"
  by (induction cs) (auto split: if_splits)

lemma findContact_resolved:
  assumes "list_all isObject cs"
  shows "findContact (JArr cs) from = Inr (resolved_contact cs from)"
proof (cases "find (wa_id_matches from) cs")
  case None
  with assms show ?thesis
    by (simp add: findContact_def array_find_wa_id resolved_contact_def synthetic_contact_def
          split: list.splits)
next
  case (Some c)
  with assms have "truthy c"
    using find_isObject isObject_truthy by blast
  with assms Some show ?thesis
    by (simp add: findContact_def array_find_wa_id resolved_contact_def)
qed

lemma for_of_messages:
  assumes "list_all isObject cs"
  shows "list_all (\<lambda>m. \<not> nullish m) msgs \<Longrightarrow>
    for_of (\<lambda>evs msg.
        andThen (get_prop msg ''from'') (\<lambda>from.
        andThen (findContact (JArr cs) from) (\<lambda>contact.
          Inr (evs @ [MessageEvent msg contact md])))) msgs events
     = Inr (events @ map (\<lambda>m. MessageEvent m (resolved_contact cs (field m ''from'')) md) msgs)"
proof (induction msgs arbitrary: events)
  case Nil
  show ?case by simp
next
  case (Cons m msgs)
  then have "get_prop m ''from'' = Inr (field m ''from'')"
    by (simp add: get_prop_field)
  with Cons assms show ?case
    by (simp add: findContact_resolved)
qed

lemma contacts_or_empty:
  assumes "nullish cs \<or> isArray cs \<and> list_all isObject (elements cs)"
  shows "(if nullish cs then JArr [] else cs) = JArr (elements cs)
         \<and> list_all isObject (elements cs)"
proof (cases "nullish cs")
  case True
  then show ?thesis by (cases cs) simp_all
next
  case False
  with assms show ?thesis using isArray_elements by auto
qed

lemma messages_block_events:
  assumes "valid_value val"
  shows "messages_block val md events
     = Inr (events @ map (\<lambda>m. MessageEvent m
              (resolved_contact (elements (field val ''contacts'')) (field m ''from'')) md)
            (elements (field val ''messages'')))"
proof -
  from assms have nn: "\<not> nullish val"
    and msgs: "list_all (\<lambda>m. \<not> nullish m) (elements (field val ''messages''))"
    and cs: "nullish (field val ''contacts'')
        \<or> isArray (field val ''contacts'') \<and> list_all isObject (elements (field val ''contacts''))"
    by (simp_all add: valid_value_def)
  note c = contacts_or_empty [OF cs]
  show ?thesis
  proof (cases "isArray (field val ''messages'')")
    case True
    then have it: "iterate (field val ''messages'') = Inr (elements (field val ''messages''))"
      by (cases "field val ''messages''") simp_all
    from True show ?thesis
      unfolding messages_block_def
      by (simp add: get_prop_field [OF nn] truthy_isArray Let_def c it
            for_of_messages [OF conjunct2 [OF c] msgs])
  next
    case False
    then show ?thesis
      unfolding messages_block_def
      by (simp add: get_prop_field [OF nn] not_isArray_elements)
  qed
qed

lemma statuses_block_events:
  assumes "\<not> nullish val"
  shows "statuses_block val md events
     = Inr (events @ map (\<lambda>s. StatusEvent s md) (elements (field val ''statuses'')))"
proof (cases "isArray (field val ''statuses'')")
  case True
  then have it: "iterate (field val ''statuses'') = Inr (elements (field val ''statuses''))"
    by (cases "field val ''statuses''") simp_all
  from True show ?thesis
    unfolding statuses_block_def
    by (simp add: get_prop_field [OF assms] truthy_isArray it for_of_statuses)
next
  case False
  then show ?thesis
    unfolding statuses_block_def
    by (simp add: get_prop_field [OF assms] not_isArray_elements)
qed

lemma errors_block_events:
  assumes "\<not> nullish val"
  shows "errors_block val md events
     = Inr (events @ (if elements (field val ''errors'') \<noteq> []
                      then [ErrorEvent (field val ''errors'') md] else []))"
  unfolding errors_block_def
  by (cases "field val ''errors''") (simp_all add: get_prop_field [OF assms])

lemma change_body_events:
  assumes "\<not> nullish change" and "valid_value (field change ''value'')"
  shows "change_body events change = Inr (events @ expected_value_events (field change ''value''))"
proof -
  from assms(2) have nn: "\<not> nullish (field change ''value'')"
    by (simp add: valid_value_def)
  show ?thesis
    unfolding change_body_def
    by (simp add: get_prop_field [OF assms(1)] get_prop_field [OF nn]
          messages_block_events [OF assms(2)] statuses_block_events [OF nn]
          errors_block_events [OF nn] expected_value_events_def)
qed

lemma for_of_changes:
  "list_all (\<lambda>c. \<not> nullish c \<and> valid_value (field c ''value'')) cs \<Longrightarrow>
   for_of change_body cs events
     = Inr (events @ concat (map (\<lambda>c. expected_value_events (field c ''value'')) cs))"
  by (induction cs arbitrary: events) (simp_all add: change_body_events)

lemma entry_body_events:
  assumes "valid_entry entry"
  shows "entry_body events entry = Inr (events @ expected_entry_events entry)"
proof -
  from assms have nn: "\<not> nullish entry" and arr: "isArray (field entry ''changes'')"
    and cs: "list_all (\<lambda>c. \<not> nullish c \<and> valid_value (field c ''value''))
          (elements (field entry ''changes''))"
    by (simp_all add: valid_entry_def)
  from arr have it: "iterate (field entry ''changes'') = Inr (elements (field entry ''changes''))"
    by (cases "field entry ''changes''") simp_all
  show ?thesis
    unfolding entry_body_def
    by (simp add: get_prop_field [OF nn] it for_of_changes [OF cs] expected_entry_events_def)
qed

lemma for_of_entries:
  "list_all valid_entry es \<Longrightarrow>
   for_of entry_body es events = Inr (events @ concat (map expected_entry_events es))"
  by (induction es arbitrary: events) (simp_all add: entry_body_events)

lemma isValidPayload_envelope:
  assumes "field body ''object'' = JStr ''whatsapp_business_account''"
    and "isArray (field body ''entry'')"
  shows "isValidPayload body = Inr True"
proof (cases body)
  case (JObj kvs)
  with assms show ?thesis
    by (simp add: isValidPayload_def)
qed (use assms in simp_all)

lemma parseWebhook_events:
  assumes "field body ''object'' = JStr ''whatsapp_business_account''"
    and "field body ''entry'' = JArr es"
    and "list_all valid_entry es"
  shows "parseWebhook body = Inr (concat (map expected_entry_events es))"
proof -
  from assms(1) have nn: "\<not> nullish body"
    by (cases body) simp_all
  have v: "isValidPayload body = Inr True"
    using assms(1,2) by (simp add: isValidPayload_envelope)
  show ?thesis
    unfolding parseWebhook_def
    by (simp add: v get_prop_field [OF nn] assms(2) for_of_entries [OF assms(3)])
qed

lemma isValidPayload_eq:
  "isValidPayload body
     = Inr (field body ''object'' = JStr ''whatsapp_business_account'' \<and> isArray (field body ''entry''))"
proof (cases body)
  case (JObj kvs)
  have "strict_eq v (JStr s) \<longleftrightarrow> v = JStr s" for v s
    by (cases v) auto
  with JObj show ?thesis
    by (simp add: isValidPayload_def)
qed (simp_all add: isValidPayload_def)

lemma parseWebhook_invalid_envelope:
  "\<not> (field body ''object'' = JStr ''whatsapp_business_account'' \<and> isArray (field body ''entry''))
   \<Longrightarrow> parseWebhook body = Inr []"
  unfolding parseWebhook_def isValidPayload_eq by simp

lemma find_first:
  "list_all (\<lambda>p. \<not> P p) pre \<Longrightarrow> P c \<Longrightarrow> find P (pre @ c # post) = Some c"
  by (induction pre) simp_all

lemma find_none: "list_all (\<lambda>c. \<not> P c) cs \<Longrightarrow> find P cs = None"
  by (induction cs) simp_all

text \<open>
  C1 at the payload whose envelope is valid and whose one entry has no
  \<^verbatim>\<open>changes\<close>, and at the payload whose one change has no \<^verbatim>\<open>value\<close>:
  the normaliser throws a \<^verbatim>\<open>TypeError\<close>; it does not return an empty list.
\<close>

theorem parseWebhook_throws:
  "parseWebhook (JObj [(''object'', JStr ''whatsapp_business_account''),
                       (''entry'', JArr [JObj []])]) = Inl TypeError
   \<and> parseWebhook (JObj [(''object'', JStr ''whatsapp_business_account''),
                       (''entry'', JArr [JObj [(''changes'', JArr [JObj []])]])]) = Inl TypeError"
  by (simp add: parseWebhook_def isValidPayload_def entry_body_def change_body_def)

text \<open>
  C6: with the listed contacts objects, the contact resolved for a sender is
  the first listed contact whose \<^verbatim>\<open>wa_id\<close> equals the sender when there is
  one; otherwise the first listed contact when the list is not empty; otherwise
  the synthetic contact with an empty name and the sender as \<^verbatim>\<open>wa_id\<close>. A
  value block without a contacts list resolves every message to the synthetic
  contact, as an empty list does.
\<close>

theorem findContact_resolution:
  assumes "list_all isObject cs"
  shows "(\<forall>pre c post. cs = pre @ c # post \<and> wa_id_matches from c
            \<and> list_all (\<lambda>p. \<not> wa_id_matches from p) pre
          \<longrightarrow> findContact (JArr cs) from = Inr c)
    \<and> (cs \<noteq> [] \<and> list_all (\<lambda>c. \<not> wa_id_matches from c) cs
          \<longrightarrow> findContact (JArr cs) from = Inr (hd cs))
    \<and> findContact (JArr []) from
         = Inr (JObj [(''profile'', JObj [(''name'', JStr [])]), (''wa_id'', from)])
    \<and> (\<forall>val md events. valid_value val \<and> nullish (field val ''contacts'')
          \<longrightarrow> messages_block val md events
              = Inr (events @ map (\<lambda>m. MessageEvent m
                       (JObj [(''profile'', JObj [(''name'', JStr [])]), (''wa_id'', field m ''from'')]) md)
                     (elements (field val ''messages''))))"
proof (intro conjI allI impI)
  fix pre c post
  assume a: "cs = pre @ c # post \<and> wa_id_matches from c
            \<and> list_all (\<lambda>p. \<not> wa_id_matches from p) pre"
  then have "find (wa_id_matches from) cs = Some c"
    by (simp add: find_first)
  then show "findContact (JArr cs) from = Inr c"
    by (simp add: findContact_resolved [OF assms] resolved_contact_def)
next
  assume a: "cs \<noteq> [] \<and> list_all (\<lambda>c. \<not> wa_id_matches from c) cs"
  then have "find (wa_id_matches from) cs = None"
    by (simp add: find_none)
  then have "resolved_contact cs from = hd cs"
    using a by (cases cs) (simp_all add: resolved_contact_def)
  then show "findContact (JArr cs) from = Inr (hd cs)"
    by (simp add: findContact_resolved [OF assms])
next
  show "findContact (JArr []) from
         = Inr (JObj [(''profile'', JObj [(''name'', JStr [])]), (''wa_id'', from)])"
    by (simp add: findContact_def)
next
  fix val md events
  assume a: "valid_value val \<and> nullish (field val ''contacts'')"
  then have "elements (field val ''contacts'') = []"
    by (cases "field val ''contacts''") simp_all
  with a show "messages_block val md events
              = Inr (events @ map (\<lambda>m. MessageEvent m
                       (JObj [(''profile'', JObj [(''name'', JStr [])]), (''wa_id'', field m ''from'')]) md)
                     (elements (field val ''messages'')))"
    by (simp add: messages_block_events resolved_contact_def synthetic_contact_def)
qed

text \<open>
  C5: for a payload with a valid envelope whose entries and value blocks have
  the declared shape, the events are those of each value block, in the order of
  the entries and, within an entry, of its changes. For a payload with a single
  value block holding N messages and M statuses, the events are the N message
  events in the order of the messages, then the M status events in the order
  of the statuses, then one error event exactly when the value-level list of
  errors is not empty: N + M events, plus that one.
\<close>

theorem parseWebhook_document_order:
  assumes "field body ''object'' = JStr ''whatsapp_business_account''"
    and "field body ''entry'' = JArr es"
    and "list_all valid_entry es"
  shows "parseWebhook body
           = Inr (concat (map (\<lambda>e. concat (map (\<lambda>c. expected_value_events (field c ''value''))
                                               (elements (field e ''changes'')))) es))
    \<and> (\<forall>e c. es = [e] \<and> elements (field e ''changes'') = [c] \<longrightarrow>
          (\<exists>evs. parseWebhook body = Inr evs
             \<and> evs = map (\<lambda>m. MessageEvent m
                             (resolved_contact (elements (field (field c ''value'') ''contacts''))
                                (field m ''from''))
                             (field (field c ''value'') ''metadata''))
                         (elements (field (field c ''value'') ''messages''))
                     @ map (\<lambda>s. StatusEvent s (field (field c ''value'') ''metadata''))
                         (elements (field (field c ''value'') ''statuses''))
                     @ (if elements (field (field c ''value'') ''errors'') \<noteq> []
                        then [ErrorEvent (field (field c ''value'') ''errors'')
                                (field (field c ''value'') ''metadata'')]
                        else [])
             \<and> length evs = length (elements (field (field c ''value'') ''messages''))
                            + length (elements (field (field c ''value'') ''statuses''))
                            + (if elements (field (field c ''value'') ''errors'') \<noteq> [] then 1 else 0)))"
proof (intro conjI allI impI)
  show "parseWebhook body
           = Inr (concat (map (\<lambda>e. concat (map (\<lambda>c. expected_value_events (field c ''value''))
                                               (elements (field e ''changes'')))) es))"
    using parseWebhook_events [OF assms] by (simp add: expected_entry_events_def [abs_def])
next
  fix e c
  assume a: "es = [e] \<and> elements (field e ''changes'') = [c]"
  then have "parseWebhook body = Inr (expected_value_events (field c ''value''))"
    using parseWebhook_events [OF assms] by (simp add: expected_entry_events_def)
  then show "\<exists>evs. parseWebhook body = Inr evs
             \<and> evs = map (\<lambda>m. MessageEvent m
                             (resolved_contact (elements (field (field c ''value'') ''contacts''))
                                (field m ''from''))
                             (field (field c ''value'') ''metadata''))
                         (elements (field (field c ''value'') ''messages''))
                     @ map (\<lambda>s. StatusEvent s (field (field c ''value'') ''metadata''))
                         (elements (field (field c ''value'') ''statuses''))
                     @ (if elements (field (field c ''value'') ''errors'') \<noteq> []
                        then [ErrorEvent (field (field c ''value'') ''errors'')
                                (field (field c ''value'') ''metadata'')]
                        else [])
             \<and> length evs = length (elements (field (field c ''value'') ''messages''))
                            + length (elements (field (field c ''value'') ''statuses''))
                            + (if elements (field (field c ''value'') ''errors'') \<noteq> [] then 1 else 0)"
    by (simp add: expected_value_events_def)
qed

theorem findContact_resolution_witness:
  "(findContact (JArr [JObj [(''profile'', JObj [(''name'', JStr ''A'')]), (''wa_id'', JStr ''551'')],
                      JObj [(''profile'', JObj [(''name'', JStr ''B'')]), (''wa_id'', JStr ''552'')]])
       (JStr ''552'')
     = Inr (JObj [(''profile'', JObj [(''name'', JStr ''B'')]), (''wa_id'', JStr ''552'')])
   \<and> findContact (JArr [JObj [(''profile'', JObj [(''name'', JStr ''A'')]), (''wa_id'', JStr ''551'')],
                      JObj [(''profile'', JObj [(''name'', JStr ''B'')]), (''wa_id'', JStr ''552'')]])
       (JStr ''999'')
     = Inr (JObj [(''profile'', JObj [(''name'', JStr ''A'')]), (''wa_id'', JStr ''551'')]))
   \<and> messages_block (JObj [(''messages'', JArr [JObj [(''from'', JStr ''550'')]])]) JUndefined []
     = Inr [MessageEvent (JObj [(''from'', JStr ''550'')])
              (JObj [(''profile'', JObj [(''name'', JStr [])]), (''wa_id'', JStr ''550'')])
              JUndefined]"
proof (rule conjI)
  show "findContact (JArr [JObj [(''profile'', JObj [(''name'', JStr ''A'')]), (''wa_id'', JStr ''551'')],
                      JObj [(''profile'', JObj [(''name'', JStr ''B'')]), (''wa_id'', JStr ''552'')]])
       (JStr ''552'')
     = Inr (JObj [(''profile'', JObj [(''name'', JStr ''B'')]), (''wa_id'', JStr ''552'')])
   \<and> findContact (JArr [JObj [(''profile'', JObj [(''name'', JStr ''A'')]), (''wa_id'', JStr ''551'')],
                      JObj [(''profile'', JObj [(''name'', JStr ''B'')]), (''wa_id'', JStr ''552'')]])
       (JStr ''999'')
     = Inr (JObj [(''profile'', JObj [(''name'', JStr ''A'')]), (''wa_id'', JStr ''551'')])"
  proof (intro conjI)
    have objs: "list_all isObject
       [JObj [(''profile'', JObj [(''name'', JStr ''A'')]), (''wa_id'', JStr ''551'')],
        JObj [(''profile'', JObj [(''name'', JStr ''B'')]), (''wa_id'', JStr ''552'')]]"
      by simp
    show "findContact (JArr [JObj [(''profile'', JObj [(''name'', JStr ''A'')]), (''wa_id'', JStr ''551'')],
                        JObj [(''profile'', JObj [(''name'', JStr ''B'')]), (''wa_id'', JStr ''552'')]])
         (JStr ''552'')
       = Inr (JObj [(''profile'', JObj [(''name'', JStr ''B'')]), (''wa_id'', JStr ''552'')])"
      using findContact_resolution [OF objs, of "JStr ''552''", THEN conjunct1, rule_format,
          of "[JObj [(''profile'', JObj [(''name'', JStr ''A'')]), (''wa_id'', JStr ''551'')]]"
             "JObj [(''profile'', JObj [(''name'', JStr ''B'')]), (''wa_id'', JStr ''552'')]" "[]"]
      by (simp add: wa_id_matches_def)
    show "findContact (JArr [JObj [(''profile'', JObj [(''name'', JStr ''A'')]), (''wa_id'', JStr ''551'')],
                        JObj [(''profile'', JObj [(''name'', JStr ''B'')]), (''wa_id'', JStr ''552'')]])
         (JStr ''999'')
       = Inr (JObj [(''profile'', JObj [(''name'', JStr ''A'')]), (''wa_id'', JStr ''551'')])"
      using findContact_resolution [OF objs, of "JStr ''999''", THEN conjunct2, THEN conjunct1]
      by (simp add: wa_id_matches_def)
  qed
  show "messages_block (JObj [(''messages'', JArr [JObj [(''from'', JStr ''550'')]])]) JUndefined []
     = Inr [MessageEvent (JObj [(''from'', JStr ''550'')])
              (JObj [(''profile'', JObj [(''name'', JStr [])]), (''wa_id'', JStr ''550'')])
              JUndefined]"
  proof -
    have h: "valid_value (JObj [(''messages'', JArr [JObj [(''from'', JStr ''550'')]])])
        \<and> nullish (field (JObj [(''messages'', JArr [JObj [(''from'', JStr ''550'')]])]) ''contacts'')"
      by (simp add: valid_value_def)
    have objs: "list_all isObject []" by simp
    from findContact_resolution [OF objs, of JUndefined, THEN conjunct2, THEN conjunct2, THEN conjunct2,
        rule_format, OF h, of JUndefined "[]"]
    show ?thesis by simp
  qed
qed

theorem parseWebhook_document_order_witness: 
  "parseWebhook sample_payload = Inr
     [MessageEvent (JObj [(''from'', JStr ''550''), (''id'', JStr ''m1'')])
        (JObj [(''profile'', JObj [(''name'', JStr ''X'')]), (''wa_id'', JStr ''550'')])
        (JObj [(''phone_number_id'', JStr ''123'')]),
      StatusEvent (JObj [(''id'', JStr ''s1''), (''status'', JStr ''read'')])
        (JObj [(''phone_number_id'', JStr ''123'')])]
   \<and> (\<exists>evs. parseWebhook sample_payload = Inr evs \<and> length evs = 1 + 1 + 0)"
proof (intro conjI)
  have h1: "field sample_payload ''object'' = JStr ''whatsapp_business_account''"
    by (simp add: sample_payload_def)
  have h2: "field sample_payload ''entry'' = JArr (elements (field sample_payload ''entry''))"
    by (simp add: sample_payload_def)
  have h3: "list_all valid_entry (elements (field sample_payload ''entry''))"
    by (simp add: sample_payload_def valid_entry_def valid_value_def)
  show "parseWebhook sample_payload = Inr
     [MessageEvent (JObj [(''from'', JStr ''550''), (''id'', JStr ''m1'')])
        (JObj [(''profile'', JObj [(''name'', JStr ''X'')]), (''wa_id'', JStr ''550'')])
        (JObj [(''phone_number_id'', JStr ''123'')]),
      StatusEvent (JObj [(''id'', JStr ''s1''), (''status'', JStr ''read'')])
        (JObj [(''phone_number_id'', JStr ''123'')])]"
    using parseWebhook_document_order [OF h1 h2 h3, THEN conjunct1]
    by (simp add: sample_payload_def expected_value_events_def resolved_contact_def wa_id_matches_def)
  have single: "elements (field sample_payload ''entry'') = [hd (elements (field sample_payload ''entry''))]
      \<and> elements (field (hd (elements (field sample_payload ''entry''))) ''changes'')
          = [hd (elements (field (hd (elements (field sample_payload ''entry''))) ''changes''))]"
    by (simp add: sample_payload_def)
  from parseWebhook_document_order [OF h1 h2 h3, THEN conjunct2, rule_format, OF single]
  obtain evs where "parseWebhook sample_payload = Inr evs"
    and "length evs
       = length (elements (field (field (hd (elements (field (hd (elements (field sample_payload ''entry''))) ''changes''))) ''value'') ''messages''))
       + length (elements (field (field (hd (elements (field (hd (elements (field sample_payload ''entry''))) ''changes''))) ''value'') ''statuses''))
       + (if elements (field (field (hd (elements (field (hd (elements (field sample_payload ''entry''))) ''changes''))) ''value'') ''errors'') \<noteq> [] then 1 else 0)"
    by blast
  then show "\<exists>evs. parseWebhook sample_payload = Inr evs \<and> length evs = 1 + 1 + 0"
    by (simp add: sample_payload_def)
qed

section \<open>Properties of the signature check\<close>

text \<open>
  C8: the signature check holds exactly when the header is \<^verbatim>\<open>sha256=\<close>
  followed by the hex digest of the raw body under the secret (plain equality
  of strings, no failure case); the bare digest without the prefix is rejected;
  and the wrapper throws "Invalid webhook signature" whenever the check fails,
  and otherwise hands the decoded body to the normaliser.
\<close>

theorem validateSignature_exact:
  "(validateSignature hmac rawBody signature appSecret
      \<longleftrightarrow> signature = ''sha256='' @ hmac appSecret rawBody)
   \<and> \<not> validateSignature hmac rawBody (hmac appSecret rawBody) appSecret
   \<and> (\<not> validateSignature hmac rawBody signature appSecret \<longrightarrow>
        parseWebhookWithSignature hmac json_parse rawBody signature appSecret
          = Inl (Error ''Invalid webhook signature''))
   \<and> (validateSignature hmac rawBody signature appSecret \<longrightarrow>
        parseWebhookWithSignature hmac json_parse rawBody signature appSecret
          = andThen (json_parse rawBody) parseWebhook)"
  by (simp add: validateSignature_def parseWebhookWithSignature_def)

theorem validateSignature_exact_witness:
  "parseWebhookWithSignature (\<lambda>secret body. ''00ff'') (\<lambda>body. Inr JNull)
     ''{}'' ''sha256=bad'' ''my-app-secret'' = Inl (Error ''Invalid webhook signature'')
   \<and> parseWebhookWithSignature (\<lambda>secret body. ''00ff'') (\<lambda>body. Inr JNull)
     ''{}'' ''sha256=00ff'' ''my-app-secret'' = Inr []"
proof (intro conjI)
  show "parseWebhookWithSignature (\<lambda>secret body. ''00ff'') (\<lambda>body. Inr JNull)
     ''{}'' ''sha256=bad'' ''my-app-secret'' = Inl (Error ''Invalid webhook signature'')"
    using validateSignature_exact [of "\<lambda>secret body. ''00ff''" "''{}''" "''sha256=bad''"
        "''my-app-secret''" "\<lambda>body. Inr JNull", THEN conjunct2, THEN conjunct2, THEN conjunct1]
    by (simp add: validateSignature_def)
  show "parseWebhookWithSignature (\<lambda>secret body. ''00ff'') (\<lambda>body. Inr JNull)
     ''{}'' ''sha256=00ff'' ''my-app-secret'' = Inr []"
    using validateSignature_exact [of "\<lambda>secret body. ''00ff''" "''{}''" "''sha256=00ff''"
        "''my-app-secret''" "\<lambda>body. Inr JNull", THEN conjunct2, THEN conjunct2, THEN conjunct2]
    by (simp add: validateSignature_def parseWebhook_invalid_envelope)
qed

section \<open>Properties of the broadcast\<close>

lemma those_Some_iff: "those xs = Some ys \<longleftrightarrow> xs = map Some ys"
proof (induction xs arbitrary: ys)
  case Nil
  show ?case by auto
next
  case (Cons x xs)
  show ?case
  proof (cases x)
    case None
    then show ?thesis by auto
  next
    case (Some y)
    with Cons show ?thesis by (cases ys) auto
  qed
qed

lemma settle_slots:
  "length init = length ps \<Longrightarrow>
   (\<forall>j<length ps. init ! j = (if j \<in> A then Some (ps ! j) else None)) \<Longrightarrow>
   length (foldl (\<lambda>slots j. if j < length ps then slots[j := Some (ps ! j)] else slots) init order)
     = length ps
   \<and> (\<forall>j<length ps.
        foldl (\<lambda>slots j. if j < length ps then slots[j := Some (ps ! j)] else slots) init order ! j
          = (if j \<in> A \<union> set order then Some (ps ! j) else None))"
proof (induction order arbitrary: init A)
  case Nil
  then show ?case by simp
next
  case (Cons a order)
  let ?init = "if a < length ps then init[a := Some (ps ! a)] else init"
  have len: "length ?init = length ps"
    using Cons.prems(1) by simp
  have inv: "\<forall>j<length ps. ?init ! j = (if j \<in> insert a A then Some (ps ! j) else None)"
    using Cons.prems by (auto simp: nth_list_update)
  from Cons.IH [OF len inv] show ?case by simp
qed

lemma settle_slots_empty:
  "length (foldl (\<lambda>slots j. if j < length ps then slots[j := Some (ps ! j)] else slots)
             (replicate (length ps) None) order) = length ps
   \<and> (\<forall>j<length ps.
        foldl (\<lambda>slots j. if j < length ps then slots[j := Some (ps ! j)] else slots)
          (replicate (length ps) None) order ! j
          = (if j \<in> set order then Some (ps ! j) else None))"
  using settle_slots [of "replicate (length ps) None" ps "{}" order] by simp

lemma allSettled_Some: "allSettled order ps = Some rs \<Longrightarrow> rs = ps"
proof -
  assume "allSettled order ps = Some rs"
  then have eq: "foldl (\<lambda>slots j. if j < length ps then slots[j := Some (ps ! j)] else slots)
          (replicate (length ps) None) order = map Some rs"
    by (simp add: allSettled_def those_Some_iff)
  with settle_slots_empty [of ps order] have len: "length rs = length ps"
    by simp
  have "rs ! j = ps ! j" if "j < length ps" for j
    using settle_slots_empty [of ps order] that len unfolding eq
    by (auto split: if_splits)
  with len show "rs = ps"
    by (simp add: list_eq_iff_nth_eq)
qed

lemma allSettled_complete:
  assumes "{..<length ps} \<subseteq> set order"
  shows "allSettled order ps = Some ps"
proof -
  let ?slots = "foldl (\<lambda>slots j. if j < length ps then slots[j := Some (ps ! j)] else slots)
          (replicate (length ps) None) order"
  have len: "length ?slots = length ps"
    and nth: "\<And>j. j < length ps \<Longrightarrow> ?slots ! j = (if j \<in> set order then Some (ps ! j) else None)"
    using settle_slots_empty [of ps order] by blast+
  have "?slots = map Some ps"
  proof (rule nth_equalityI)
    show "length ?slots = length (map Some ps)"
      using len by simp
  next
    fix j
    assume "j < length ?slots"
    then have j: "j < length ps" using len by simp
    then have "j \<in> set order" using assms by auto
    with j show "?slots ! j = map Some ps ! j"
      by (simp add: nth)
  qed
  then show ?thesis
    by (simp add: allSettled_def those_Some_iff)
qed

lemma allSettled_perm:
  assumes "mset order = mset [0..<length ps]"
  shows "allSettled order ps = Some ps"
proof -
  have "set order = {0..<length ps}"
    using mset_eq_setD [OF assms] by simp
  then have "{..<length ps} \<subseteq> set order"
    by (simp add: lessThan_atLeast0)
  then show ?thesis
    by (rule allSettled_complete)
qed

lemma slice_batch:
  assumes "0 \<le> i" and "1 \<le> b"
  shows "slice xs i (i + b) = take (nat b) (drop (nat i) xs)"
proof (cases "i < int (length xs)")
  case True
  show ?thesis
  proof (cases "i + b \<le> int (length xs)")
    case True
    with assms \<open>i < int (length xs)\<close> show ?thesis
      by (simp add: slice_def Let_def)
  next
    case False
    with assms \<open>i < int (length xs)\<close> have "length (drop (nat i) xs) \<le> nat b"
      by simp
    with False assms \<open>i < int (length xs)\<close> show ?thesis
      by (simp add: slice_def Let_def)
  qed
next
  case False
  with assms show ?thesis
    by (simp add: slice_def Let_def)
qed

lemma succeeded_pairs_append:
  "succeeded_pairs (xs @ ys) = succeeded_pairs xs @ succeeded_pairs ys"
  by (induction xs rule: succeeded_pairs.induct) simp_all

lemma failed_pairs_append:
  "failed_pairs (xs @ ys) = failed_pairs xs @ failed_pairs ys"
  by (induction xs rule: failed_pairs.induct) simp_all

lemma outcomes_append:
  "outcomes send k (xs @ ys) = outcomes send k xs @ outcomes send (k + length xs) ys"
  by (simp add: outcomes_def enumerate_append_eq)

lemma collect_outcomes:
  "collect batch (map (\<lambda>(n, to). send n to) (enumerate k batch)) run
     = run\<lparr>succeeded := succeeded run @ succeeded_pairs (outcomes send k batch),
            failed := failed run @ failed_pairs (outcomes send k batch)\<rparr>"
proof (induction batch arbitrary: k run)
  case Nil
  show ?case by (simp add: outcomes_def)
next
  case (Cons to batch)
  show ?case
    by (cases "send k to") (simp_all add: Cons.IH outcomes_def)
qed

lemma loop_done:
  "\<not> i < int (length recipients) \<Longrightarrow>
   broadcast_loop send completion recipients b d fuel i run = Some run"
  by (subst broadcast_loop.simps) simp

lemma loop_no_fuel:
  "i < int (length recipients) \<Longrightarrow>
   broadcast_loop send completion recipients b d 0 i run = None"
  by (subst broadcast_loop.simps) simp

lemma loop_step:
  assumes "i < int (length recipients)"
  shows "broadcast_loop send completion recipients b d (Suc fuel) i run =
     (case allSettled (completion i)
             (map (\<lambda>(n, to). send n to)
                (enumerate (length (sent run)) (slice recipients i (i + b)))) of
        None \<Rightarrow> None
      | Some results \<Rightarrow>
          broadcast_loop send completion recipients b d fuel (i + b)
            (after_batch send recipients b d i run))"
proof (cases "allSettled (completion i)
             (map (\<lambda>(n, to). send n to)
                (enumerate (length (sent run)) (slice recipients i (i + b))))")
  case None
  with assms show ?thesis
    by (subst broadcast_loop.simps) (simp add: Let_def)
next
  case (Some results)
  then have r: "results = map (\<lambda>(n, to). send n to)
                (enumerate (length (sent run)) (slice recipients i (i + b)))"
    by (rule allSettled_Some)
  have "collect (slice recipients i (i + b)) results
          (run\<lparr>sent := sent run @ slice recipients i (i + b)\<rparr>)
        = run\<lparr>succeeded := succeeded run
                   @ succeeded_pairs (outcomes send (length (sent run)) (slice recipients i (i + b))),
              failed := failed run
                   @ failed_pairs (outcomes send (length (sent run)) (slice recipients i (i + b))),
              sent := sent run @ slice recipients i (i + b)\<rparr>"
    unfolding r by (simp add: collect_outcomes)
  with assms Some show ?thesis
    by (subst broadcast_loop.simps) (simp add: Let_def after_batch_def)
qed

lemma after_batch_fields:
  assumes "0 \<le> i" and "1 \<le> b"
  shows "succeeded (after_batch send recipients b d i run)
           = succeeded run @ succeeded_pairs
               (outcomes send (length (sent run)) (take (nat b) (drop (nat i) recipients)))"
    and "failed (after_batch send recipients b d i run)
           = failed run @ failed_pairs
               (outcomes send (length (sent run)) (take (nat b) (drop (nat i) recipients)))"
    and "sent (after_batch send recipients b d i run)
           = sent run @ take (nat b) (drop (nat i) recipients)"
  by (simp_all add: after_batch_def Let_def slice_batch [OF assms])

lemma drop_batch:
  assumes "0 \<le> i" and "1 \<le> b"
  shows "take (nat b) (drop (nat i) xs) @ drop (nat (i + b)) xs = drop (nat i) xs"
proof -
  have h: "drop (nat (i + b)) xs = drop (nat b) (drop (nat i) xs)"
    using assms by (simp add: nat_add_distrib add.commute)
  show ?thesis
    unfolding h by (rule append_take_drop_id)
qed

lemma loop_result:
  assumes "1 \<le> b"
  shows "0 \<le> i \<Longrightarrow>
    broadcast_loop send completion recipients b d fuel i run = Some run' \<Longrightarrow>
    succeeded run' = succeeded run @ succeeded_pairs
        (outcomes send (length (sent run)) (drop (nat i) recipients))
    \<and> failed run' = failed run @ failed_pairs
        (outcomes send (length (sent run)) (drop (nat i) recipients))
    \<and> sent run' = sent run @ drop (nat i) recipients"
proof (induction fuel arbitrary: i run)
  case 0
  show ?case
  proof (cases "i < int (length recipients)")
    case True
    with "0.prems" show ?thesis by (simp add: loop_no_fuel)
  next
    case False
    with "0.prems" show ?thesis by (simp add: loop_done outcomes_def)
  qed
next
  case (Suc fuel)
  show ?case
  proof (cases "i < int (length recipients)")
    case False
    with Suc.prems show ?thesis by (simp add: loop_done outcomes_def)
  next
    case True
    let ?next = "after_batch send recipients b d i run"
    from Suc.prems(2) have run': "broadcast_loop send completion recipients b d fuel (i + b) ?next
        = Some run'"
      by (simp add: loop_step [OF True] split: option.splits)
    from Suc.prems(1) assms have "0 \<le> i + b" by simp
    note ih = Suc.IH [OF this run']
    note f = after_batch_fields [OF Suc.prems(1) assms, of send recipients d run]
    note d = drop_batch [OF Suc.prems(1) assms, of recipients]
    have split_out: "outcomes send (length (sent run)) (drop (nat i) recipients)
        = outcomes send (length (sent run)) (take (nat b) (drop (nat i) recipients))
          @ outcomes send (length (sent ?next)) (drop (nat (i + b)) recipients)"
    proof -
      have "length (sent ?next)
          = length (sent run) + length (take (nat b) (drop (nat i) recipients))"
        by (simp only: f(3) length_append)
      then show ?thesis
        by (simp only: outcomes_append [symmetric] d)
    qed
    show ?thesis
      using ih
      by (simp add: f split_out succeeded_pairs_append failed_pairs_append d)
  qed
qed

lemma all_settle_batch:
  assumes "all_settle completion recipients b" and "1 \<le> b"
    and "int k * b < int (length recipients)"
  shows "allSettled (completion (int k * b))
           (map (\<lambda>(n, to). send n to) (enumerate m (slice recipients (int k * b) (int k * b + b))))
         = Some (map (\<lambda>(n, to). send n to)
                   (enumerate m (slice recipients (int k * b) (int k * b + b))))"
proof -
  have "int k \<le> int k * b"
    using assms(2) by (simp add: mult_le_cancel_left1)
  with assms(3) have "k < length recipients" by linarith
  with assms(1,3) have "mset (completion (int k * b))
        = mset [0..<length (slice recipients (int k * b) (int k * b + b))]"
    by (simp add: all_settle_def list_all_iff)
  then show ?thesis
    by (intro allSettled_perm) simp
qed

lemma loop_returns_iff:
  assumes "1 \<le> b" and "all_settle completion recipients b"
  shows "broadcast_loop send completion recipients b d fuel (int k * b) run \<noteq> None
    \<longleftrightarrow> int (length recipients) - int k * b \<le> int fuel * b"
proof (induction fuel arbitrary: k run)
  case 0
  show ?case
  proof (cases "int k * b < int (length recipients)")
    case True
    then show ?thesis by (simp add: loop_no_fuel)
  next
    case False
    then show ?thesis by (simp add: loop_done)
  qed
next
  case (Suc fuel)
  show ?case
  proof (cases "int k * b < int (length recipients)")
    case False
    have "0 \<le> int (Suc fuel) * b" using assms(1) by simp
    with False show ?thesis by (simp add: loop_done)
  next
    case True
    have next_start: "int k * b + b = int (Suc k) * b"
      by (simp add: algebra_simps)
    have "broadcast_loop send completion recipients b d (Suc fuel) (int k * b) run
        = broadcast_loop send completion recipients b d fuel (int k * b + b)
            (after_batch send recipients b d (int k * b) run)"
      by (simp only: loop_step [OF True] all_settle_batch [OF assms(2,1) True] option.case)
    then have "broadcast_loop send completion recipients b d (Suc fuel) (int k * b) run
        = broadcast_loop send completion recipients b d fuel (int (Suc k) * b)
            (after_batch send recipients b d (int k * b) run)"
      by (simp only: next_start)
    then show ?thesis
      using Suc.IH [of "Suc k"] by (simp add: algebra_simps)
  qed
qed

lemma loop_diverges:
  assumes "b \<le> 0"
  shows "i < int (length recipients) \<Longrightarrow>
    broadcast_loop send completion recipients b d fuel i run = None"
proof (induction fuel arbitrary: i run)
  case 0
  then show ?case by (simp add: loop_no_fuel)
next
  case (Suc fuel)
  from Suc.prems assms have "i + b < int (length recipients)" by simp
  then show ?case
    by (simp add: loop_step [OF Suc.prems] Suc.IH split: option.splits)
qed

lemma loop_more_fuel:
  "broadcast_loop send completion recipients b d fuel i run = Some r \<Longrightarrow> fuel \<le> fuel' \<Longrightarrow>
   broadcast_loop send completion recipients b d fuel' i run = Some r"
proof (induction fuel arbitrary: fuel' i run)
  case 0
  then show ?case
    by (cases "i < int (length recipients)") (simp_all add: loop_no_fuel loop_done)
next
  case (Suc fuel)
  show ?case
  proof (cases "i < int (length recipients)")
    case False
    with Suc.prems show ?thesis by (simp add: loop_done)
  next
    case True
    from Suc.prems(2) obtain f where f: "fuel' = Suc f" and le: "fuel \<le> f"
      by (cases fuel') auto
    from Suc.prems(1) show ?thesis
      unfolding f
      by (auto simp: loop_step [OF True] split: option.splits intro: Suc.IH [OF _ le])
  qed
qed

lemma ceil_div_le_iff:
  fixes n m fuel :: nat
  assumes "0 < m"
  shows "(n + m - 1) div m \<le> fuel \<longleftrightarrow> n \<le> fuel * m"
proof -
  have "(n + m - 1) div m \<le> fuel \<longleftrightarrow> (n + m - 1) div m < Suc fuel"
    by auto
  also have "\<dots> \<longleftrightarrow> n + m - 1 < Suc fuel * m"
    using assms by (simp only: div_less_iff_less_mult)
  also have "\<dots> \<longleftrightarrow> n \<le> fuel * m"
    using assms by auto
  finally show ?thesis .
qed

lemma map_fst_outcomes: "map fst (outcomes send k xs) = xs"
  by (induction xs arbitrary: k) (simp_all add: outcomes_def)

lemma mset_pairs:
  "mset (map fst (succeeded_pairs ps)) + mset (map fst (failed_pairs ps)) = mset (map fst ps)"
  by (induction ps rule: succeeded_pairs.induct) simp_all

lemma length_pairs:
  "length (succeeded_pairs ps) + length (failed_pairs ps) = length ps"
  by (induction ps rule: succeeded_pairs.induct) simp_all

lemma succeeded_pairs_mem: "(to, Inr v) \<in> set ps \<Longrightarrow> (to, v) \<in> set (succeeded_pairs ps)"
  by (induction ps rule: succeeded_pairs.induct) auto

lemma failed_pairs_mem: "(to, Inl e) \<in> set ps \<Longrightarrow> (to, e) \<in> set (failed_pairs ps)"
  by (induction ps rule: failed_pairs.induct) auto

lemma outcomes_nth:
  "k < length xs \<Longrightarrow> (xs ! k, send (m + k) (xs ! k)) \<in> set (outcomes send m xs)"
proof -
  assume k: "k < length xs"
  then have "outcomes send m xs ! k = (xs ! k, send (m + k) (xs ! k))"
    by (simp add: outcomes_def nth_enumerate_eq)
  moreover have "k < length (outcomes send m xs)"
    using k by (simp add: outcomes_def)
  ultimately show ?thesis
    by (metis nth_mem)
qed

lemma broadcast_returns_iff:
  assumes "1 \<le> batchSize_of options"
    and "all_settle completion recipients (batchSize_of options)"
  shows "broadcastTemplate send completion recipients options fuel \<noteq> None
    \<longleftrightarrow> int (length recipients) \<le> int fuel * batchSize_of options"
  using loop_returns_iff [OF assms, of send "delayMs_of options" fuel 0]
  by (simp add: broadcastTemplate_def Let_def)

lemma broadcast_result:
  assumes "1 \<le> batchSize_of options"
    and "broadcastTemplate send completion recipients options fuel = Some run"
  shows "succeeded run = succeeded_pairs (outcomes send 0 recipients)"
    and "failed run = failed_pairs (outcomes send 0 recipients)"
    and "sent run = recipients"
  using loop_result [OF assms(1), of 0 send completion recipients "delayMs_of options" fuel
      "\<lparr>succeeded = [], failed = [], sent = [], slept = []\<rparr>" run] assms(2)
  by (simp_all add: broadcastTemplate_def Let_def)

lemma broadcast_fuel:
  assumes "1 \<le> batchSize_of options"
    and "all_settle completion recipients (batchSize_of options)"
  shows "broadcastTemplate send completion recipients options fuel \<noteq> None
    \<longleftrightarrow> (length recipients + nat (batchSize_of options) - 1) div nat (batchSize_of options) \<le> fuel"
proof -
  from assms(1) have m: "0 < nat (batchSize_of options)"
    and b: "batchSize_of options = int (nat (batchSize_of options))"
    by simp_all
  have "int (length recipients) \<le> int fuel * batchSize_of options
      \<longleftrightarrow> int (length recipients) \<le> int (fuel * nat (batchSize_of options))"
    using b by (metis of_nat_mult)
  also have "\<dots> \<longleftrightarrow> length recipients \<le> fuel * nat (batchSize_of options)"
    by (simp only: of_nat_le_iff)
  also have "\<dots> \<longleftrightarrow> (length recipients + nat (batchSize_of options) - 1)
                     div nat (batchSize_of options) \<le> fuel"
    by (simp only: ceil_div_le_iff [OF m])
  finally show ?thesis
    by (simp only: broadcast_returns_iff [OF assms])
qed

lemma broadcast_more_fuel:
  "broadcastTemplate send completion recipients options fuel = Some run \<Longrightarrow> fuel \<le> fuel' \<Longrightarrow>
   broadcastTemplate send completion recipients options fuel' = Some run"
  unfolding broadcastTemplate_def Let_def by (rule loop_more_fuel)


lemma upt_3: "[0..<3] = [0, Suc 0, Suc (Suc 0)]"
  by (simp add: upt_conv_Cons numeral_3_eq_3)

lemma all_settle_one_batch:
  assumes "int (length recipients) \<le> b" and "1 \<le> b"
    and "mset (completion 0) = mset [0..<length recipients]"
  shows "all_settle completion recipients b"
proof -
  have "mset (completion (int k * b))
          = mset [0..<length (slice recipients (int k * b) (int k * b + b))]"
    if "int k * b < int (length recipients)" for k
  proof -
    have "k = 0"
    proof (rule ccontr)
      assume "k \<noteq> 0"
      then have "1 \<le> int k" by simp
      then have "b \<le> int k * b"
        using assms(2) by (simp add: mult_le_cancel_right1)
      with that assms(1) show False by linarith
    qed
    moreover have "slice recipients 0 (0 + b) = recipients"
    proof -
      have "slice recipients 0 (0 + b) = take (nat b) (drop (nat 0) recipients)"
        using assms(2) by (intro slice_batch) simp_all
      also have "\<dots> = recipients"
        using assms(1) by simp
      finally show ?thesis .
    qed
    ultimately show ?thesis
      using assms(3) by simp
  qed
  then show ?thesis
    by (simp add: all_settle_def list_all_iff)
qed


text \<open>
  C2: every recipient's outcome is collected on its own. When every send
  settles and the loop is given enough iterations, the run returns with the
  succeeded list holding exactly the recipients whose send succeeded (with the
  result) and the failed list exactly those whose send failed (with the error),
  each in the order of the recipients: a failing send removes nobody else's
  outcome. With three recipients in one batch whose second send fails, the
  succeeded list has length 2, the failed list length 1, and the failed entry
  is the second recipient, in whatever order the three sends settle.
\<close>

theorem broadcast_isolates_failures:
  "(1 \<le> batchSize_of options \<and> all_settle completion recipients (batchSize_of options)
      \<and> int (length recipients) \<le> int fuel * batchSize_of options \<longrightarrow>
      (\<exists>run. broadcastTemplate send completion recipients options fuel = Some run
         \<and> succeeded run = succeeded_pairs (outcomes send 0 recipients)
         \<and> failed run = failed_pairs (outcomes send 0 recipients)
         \<and> (\<forall>k<length recipients.
              case send k (recipients ! k) of
                Inr v \<Rightarrow> (recipients ! k, v) \<in> set (succeeded run)
              | Inl e \<Rightarrow> (recipients ! k, e) \<in> set (failed run))))
   \<and> (3 \<le> batchSize_of options \<and> mset (completion 0) = mset [0, 1, 2]
        \<and> send 0 a = Inr va \<and> send 1 b = Inl e \<and> send 2 c = Inr vc \<longrightarrow>
      (\<exists>run. broadcastTemplate send completion [a, b, c] options (Suc 0) = Some run
         \<and> succeeded run = [(a, va), (c, vc)] \<and> failed run = [(b, e)]
         \<and> length (succeeded run) = 2 \<and> length (failed run) = 1
         \<and> fst (failed run ! 0) = b))"
proof (intro conjI impI)
  assume a: "1 \<le> batchSize_of options \<and> all_settle completion recipients (batchSize_of options)
      \<and> int (length recipients) \<le> int fuel * batchSize_of options"
  then have b1: "1 \<le> batchSize_of options"
    and settle: "all_settle completion recipients (batchSize_of options)"
    and enough: "int (length recipients) \<le> int fuel * batchSize_of options"
    by blast+
  have "broadcastTemplate send completion recipients options fuel \<noteq> None"
    using enough by (simp only: broadcast_returns_iff [OF b1 settle])
  then obtain run where run: "broadcastTemplate send completion recipients options fuel = Some run"
    by (cases "broadcastTemplate send completion recipients options fuel") simp_all
  note r = broadcast_result [OF b1 run]
  have "case send k (recipients ! k) of
                Inr v \<Rightarrow> (recipients ! k, v) \<in> set (succeeded run)
              | Inl e \<Rightarrow> (recipients ! k, e) \<in> set (failed run)"
    if "k < length recipients" for k
  proof (cases "send k (recipients ! k)")
    case (Inl e)
    with outcomes_nth [OF that, of send 0]
    have "(recipients ! k, e) \<in> set (failed_pairs (outcomes send 0 recipients))"
      by (simp add: failed_pairs_mem)
    with Inl show ?thesis by (simp add: r)
  next
    case (Inr v)
    with outcomes_nth [OF that, of send 0]
    have "(recipients ! k, v) \<in> set (succeeded_pairs (outcomes send 0 recipients))"
      by (simp add: succeeded_pairs_mem)
    with Inr show ?thesis by (simp add: r)
  qed
  with run r show "\<exists>run. broadcastTemplate send completion recipients options fuel = Some run
         \<and> succeeded run = succeeded_pairs (outcomes send 0 recipients)
         \<and> failed run = failed_pairs (outcomes send 0 recipients)
         \<and> (\<forall>k<length recipients.
              case send k (recipients ! k) of
                Inr v \<Rightarrow> (recipients ! k, v) \<in> set (succeeded run)
              | Inl e \<Rightarrow> (recipients ! k, e) \<in> set (failed run))"
    by blast
next
  assume a: "3 \<le> batchSize_of options \<and> mset (completion 0) = mset [0, 1, 2]
        \<and> send 0 a = Inr va \<and> send 1 b = Inl e \<and> send 2 c = Inr vc"
  then have b3: "3 \<le> batchSize_of options"
    and order: "mset (completion 0) = mset [0, 1, 2]"
    and s0: "send 0 a = Inr va" and s1: "send (Suc 0) b = Inl e"
    and s2: "send (Suc (Suc 0)) c = Inr vc"
    by (simp_all add: numeral_2_eq_2)
  from b3 have b1: "1 \<le> batchSize_of options" by simp
  have "mset (completion 0) = mset [0..<length [a, b, c]]"
    using order by (simp add: upt_3 numeral_2_eq_2)
  with b3 have settle: "all_settle completion [a, b, c] (batchSize_of options)"
    by (intro all_settle_one_batch) simp_all
  have "broadcastTemplate send completion [a, b, c] options (Suc 0) \<noteq> None"
    using b3 by (simp only: broadcast_returns_iff [OF b1 settle]) simp
  then obtain run where run: "broadcastTemplate send completion [a, b, c] options (Suc 0) = Some run"
    by (cases "broadcastTemplate send completion [a, b, c] options (Suc 0)") simp_all
  note r = broadcast_result [OF b1 run]
  have s: "succeeded run = [(a, va), (c, vc)]" and f: "failed run = [(b, e)]"
    by (simp_all add: r outcomes_def s0 s1 s2)
  with run show "\<exists>run. broadcastTemplate send completion [a, b, c] options (Suc 0) = Some run
         \<and> succeeded run = [(a, va), (c, vc)] \<and> failed run = [(b, e)]
         \<and> length (succeeded run) = 2 \<and> length (failed run) = 1
         \<and> fst (failed run ! 0) = b"
    by simp
qed

theorem broadcast_isolates_failures_witness:
  "(\<exists>run. broadcastTemplate (\<lambda>(n::nat) to. if n = 1 then Inl (Error ''Bad'') else Inr ''wamid.test'')
            (\<lambda>i. [2, 0, 1]) [''551'', ''552'', ''553''] None (Suc 0) = Some run
      \<and> succeeded run = [(''551'', ''wamid.test''), (''553'', ''wamid.test'')]
      \<and> failed run = [(''552'', Error ''Bad'')])
   \<and> (\<exists>run. broadcastTemplate (\<lambda>(n::nat) to. if n = 1 then Inl (Error ''Bad'') else Inr ''wamid.test'')
            (\<lambda>i. if i = 0 then [1, 0] else [0]) [''551'', ''552'', ''553'']
            (Some \<lparr>opt_batchSize = Some 2, opt_delayMs = Some 0\<rparr>) 2 = Some run
      \<and> succeeded run = [(''551'', ''wamid.test''), (''553'', ''wamid.test'')]
      \<and> failed run = [(''552'', Error ''Bad'')])"
proof (rule conjI)
  show "\<exists>run. broadcastTemplate (\<lambda>(n::nat) to. if n = 1 then Inl (Error ''Bad'') else Inr ''wamid.test'')
            (\<lambda>i. [2, 0, 1]) [''551'', ''552'', ''553''] None (Suc 0) = Some run
      \<and> succeeded run = [(''551'', ''wamid.test''), (''553'', ''wamid.test'')]
      \<and> failed run = [(''552'', Error ''Bad'')]"
  proof -
    have h: "3 \<le> batchSize_of None \<and> mset ((\<lambda>i::int. [2, 0, 1::nat]) 0) = mset [0, 1, 2]
        \<and> (\<lambda>(n::nat) to. if n = 1 then Inl (Error ''Bad'') else Inr ''wamid.test'') 0 ''551''
            = (Inr ''wamid.test'' :: js_error + string)
        \<and> (\<lambda>(n::nat) to. if n = 1 then Inl (Error ''Bad'') else Inr ''wamid.test'') 1 ''552''
            = (Inl (Error ''Bad'') :: js_error + string)
        \<and> (\<lambda>(n::nat) to. if n = 1 then Inl (Error ''Bad'') else Inr ''wamid.test'') 2 ''553''
            = (Inr ''wamid.test'' :: js_error + string)"
      by (simp add: batchSize_of_def)
    from broadcast_isolates_failures [where options = None and completion = "\<lambda>i. [2, 0, 1]"
        and send = "\<lambda>n to. if n = 1 then Inl (Error ''Bad'') else Inr ''wamid.test''"
        and a = "''551''" and b = "''552''" and c = "''553''" and va = "''wamid.test''"
        and vc = "''wamid.test''" and e = "Error ''Bad''", THEN conjunct2, rule_format, OF h]
    show ?thesis by blast
  qed

  show "\<exists>run. broadcastTemplate (\<lambda>(n::nat) to. if n = 1 then Inl (Error ''Bad'') else Inr ''wamid.test'')
            (\<lambda>i. if i = 0 then [1, 0] else [0]) [''551'', ''552'', ''553'']
            (Some \<lparr>opt_batchSize = Some 2, opt_delayMs = Some 0\<rparr>) 2 = Some run
      \<and> succeeded run = [(''551'', ''wamid.test''), (''553'', ''wamid.test'')]
      \<and> failed run = [(''552'', Error ''Bad'')]"
  proof -
    have h: "1 \<le> batchSize_of (Some \<lparr>opt_batchSize = Some 2, opt_delayMs = Some 0\<rparr>)
        \<and> all_settle (\<lambda>i. if i = 0 then [1, 0] else [0]) [''551'', ''552'', ''553'']
            (batchSize_of (Some \<lparr>opt_batchSize = Some 2, opt_delayMs = Some 0\<rparr>))
        \<and> int (length [''551'', ''552'', ''553''])
            \<le> int 2 * batchSize_of (Some \<lparr>opt_batchSize = Some 2, opt_delayMs = Some 0\<rparr>)"
      by (simp add: batchSize_of_def all_settle_def slice_def Let_def upt_conv_Cons del: mset_upt)
    from broadcast_isolates_failures [where options = "Some \<lparr>opt_batchSize = Some 2, opt_delayMs = Some 0\<rparr>"
        and completion = "\<lambda>i. if i = 0 then [1, 0] else [0]"
        and recipients = "[''551'', ''552'', ''553'']" and fuel = 2
        and send = "\<lambda>(n::nat) to. if n = 1 then Inl (Error ''Bad'') else Inr ''wamid.test''",
        THEN conjunct1, rule_format, OF h]
    obtain run where "broadcastTemplate (\<lambda>(n::nat) to. if n = 1 then Inl (Error ''Bad'') else Inr ''wamid.test'')
              (\<lambda>i. if i = 0 then [1, 0] else [0]) [''551'', ''552'', ''553'']
              (Some \<lparr>opt_batchSize = Some 2, opt_delayMs = Some 0\<rparr>) 2 = Some run"
      and "succeeded run = succeeded_pairs (outcomes
              (\<lambda>(n::nat) to. if n = 1 then Inl (Error ''Bad'') else Inr ''wamid.test'') 0
              [''551'', ''552'', ''553''])"
      and "failed run = failed_pairs (outcomes
              (\<lambda>(n::nat) to. if n = 1 then Inl (Error ''Bad'') else Inr ''wamid.test'') 0
              [''551'', ''552'', ''553''])"
      by blast
    then show ?thesis
      by (simp add: outcomes_def)
  qed
qed

text \<open>
  C10: with a batch size of at least 1 and every send settling, the batch loop
  returns after exactly ceil(length / batchSize) runs of its body (it has not
  returned within fewer, and more change nothing); one send is issued to each
  recipient in order, and every recipient appears exactly once across the
  succeeded and failed lists. An empty list of recipients returns at once with
  both lists empty, no send issued and no pause taken. With a batch size of 0
  or less and at least one recipient the loop never returns.
\<close>

theorem broadcast_terminates_and_covers:
  "(1 \<le> batchSize_of options \<and> all_settle completion recipients (batchSize_of options) \<longrightarrow>
      (\<exists>run.
         (\<forall>fuel. broadcastTemplate send completion recipients options fuel
            = (if (length recipients + nat (batchSize_of options) - 1)
                    div nat (batchSize_of options) \<le> fuel
               then Some run else None))
         \<and> sent run = recipients
         \<and> mset (map fst (succeeded run)) + mset (map fst (failed run)) = mset recipients
         \<and> length (succeeded run) + length (failed run) = length recipients))
   \<and> (\<forall>fuel. broadcastTemplate send completion [] options fuel
         = Some \<lparr>succeeded = [], failed = [], sent = [], slept = []\<rparr>)
   \<and> (batchSize_of options \<le> 0 \<and> recipients \<noteq> [] \<longrightarrow>
        (\<forall>fuel. broadcastTemplate send completion recipients options fuel = None))"
proof (intro conjI impI allI)
  assume a: "1 \<le> batchSize_of options \<and> all_settle completion recipients (batchSize_of options)"
  let ?n = "(length recipients + nat (batchSize_of options) - 1) div nat (batchSize_of options)"
  note fuel = broadcast_fuel [OF conjunct1 [OF a] conjunct2 [OF a], of send]
  have "broadcastTemplate send completion recipients options ?n \<noteq> None"
    by (simp only: fuel order_refl)
  then obtain run
    where run: "broadcastTemplate send completion recipients options ?n = Some run"
    by (cases "broadcastTemplate send completion recipients options ?n") simp_all
  note r = broadcast_result [OF conjunct1 [OF a] run]
  have "broadcastTemplate send completion recipients options fuel
            = (if ?n \<le> fuel then Some run else None)" for fuel
  proof (cases "?n \<le> fuel")
    case True
    have "broadcastTemplate send completion recipients options fuel = Some run"
      using run True by (rule broadcast_more_fuel)
    with True show ?thesis by (simp only: if_True)
  next
    case False
    have "broadcastTemplate send completion recipients options fuel = None"
      using False by (simp only: fuel [of fuel, symmetric] not_not)
    with False show ?thesis by (simp only: if_False)
  qed
  moreover have "mset (map fst (succeeded run)) + mset (map fst (failed run)) = mset recipients"
    by (simp only: r mset_pairs map_fst_outcomes)
  moreover have "length (succeeded run) + length (failed run) = length recipients"
  proof -
    have "length (outcomes send 0 recipients) = length recipients"
      by (simp add: outcomes_def)
    then show ?thesis
      by (simp only: r length_pairs)
  qed
  ultimately show "\<exists>run.
         (\<forall>fuel. broadcastTemplate send completion recipients options fuel
            = (if ?n \<le> fuel then Some run else None))
         \<and> sent run = recipients
         \<and> mset (map fst (succeeded run)) + mset (map fst (failed run)) = mset recipients
         \<and> length (succeeded run) + length (failed run) = length recipients"
    using r(3) by blast
next
  fix fuel
  show "broadcastTemplate send completion [] options fuel
         = Some \<lparr>succeeded = [], failed = [], sent = [], slept = []\<rparr>"
    by (simp add: broadcastTemplate_def Let_def loop_done)
next
  fix fuel
  assume a: "batchSize_of options \<le> 0 \<and> recipients \<noteq> []"
  then have "0 < int (length recipients)" by simp
  with a show "broadcastTemplate send completion recipients options fuel = None"
    by (simp add: broadcastTemplate_def Let_def loop_diverges)
qed
theorem broadcast_terminates_and_covers_witness:
  "(\<exists>run. broadcastTemplate (\<lambda>(n::nat) to. if n = 1 then Inl (Error ''Bad'') else Inr ''wamid.test'')
            (\<lambda>i. if i = 0 then [1, 0] else [0]) [''551'', ''552'', ''553'']
            (Some \<lparr>opt_batchSize = Some 2, opt_delayMs = Some 0\<rparr>) 2 = Some run
      \<and> broadcastTemplate (\<lambda>(n::nat) to. if n = 1 then Inl (Error ''Bad'') else Inr ''wamid.test'')
            (\<lambda>i. if i = 0 then [1, 0] else [0]) [''551'', ''552'', ''553'']
            (Some \<lparr>opt_batchSize = Some 2, opt_delayMs = Some 0\<rparr>) 1 = None
      \<and> sent run = [''551'', ''552'', ''553'']
      \<and> length (succeeded run) + length (failed run) = 3)
   \<and> broadcastTemplate (\<lambda>(n::nat) to. Inr ''wamid.test'') (\<lambda>i. []) [''551'']
      (Some \<lparr>opt_batchSize = Some 0, opt_delayMs = None\<rparr>) 7
     = (None :: string BroadcastRun option)"
proof (rule conjI)
  show "\<exists>run. broadcastTemplate (\<lambda>(n::nat) to. if n = 1 then Inl (Error ''Bad'') else Inr ''wamid.test'')
            (\<lambda>i. if i = 0 then [1, 0] else [0]) [''551'', ''552'', ''553'']
            (Some \<lparr>opt_batchSize = Some 2, opt_delayMs = Some 0\<rparr>) 2 = Some run
      \<and> broadcastTemplate (\<lambda>(n::nat) to. if n = 1 then Inl (Error ''Bad'') else Inr ''wamid.test'')
            (\<lambda>i. if i = 0 then [1, 0] else [0]) [''551'', ''552'', ''553'']
            (Some \<lparr>opt_batchSize = Some 2, opt_delayMs = Some 0\<rparr>) 1 = None
      \<and> sent run = [''551'', ''552'', ''553'']
      \<and> length (succeeded run) + length (failed run) = 3"
  proof -
    have h: "1 \<le> batchSize_of (Some \<lparr>opt_batchSize = Some 2, opt_delayMs = Some 0\<rparr>)
        \<and> all_settle (\<lambda>i. if i = 0 then [1, 0] else [0]) [''551'', ''552'', ''553'']
            (batchSize_of (Some \<lparr>opt_batchSize = Some 2, opt_delayMs = Some 0\<rparr>))"
      by (simp add: batchSize_of_def all_settle_def slice_def Let_def upt_conv_Cons del: mset_upt)
    from broadcast_terminates_and_covers [where options = "Some \<lparr>opt_batchSize = Some 2, opt_delayMs = Some 0\<rparr>"
        and completion = "\<lambda>i. if i = 0 then [1, 0] else [0]"
        and recipients = "[''551'', ''552'', ''553'']"
        and send = "\<lambda>n to. if n = 1 then Inl (Error ''Bad'') else Inr ''wamid.test''",
        THEN conjunct1, rule_format, OF h]
    obtain run where
      fuel: "\<And>fuel. broadcastTemplate (\<lambda>(n::nat) to. if n = 1 then Inl (Error ''Bad'') else Inr ''wamid.test'')
              (\<lambda>i. if i = 0 then [1, 0] else [0]) [''551'', ''552'', ''553'']
              (Some \<lparr>opt_batchSize = Some 2, opt_delayMs = Some 0\<rparr>) fuel
          = (if (length [''551'', ''552'', ''553'']
                  + nat (batchSize_of (Some \<lparr>opt_batchSize = Some 2, opt_delayMs = Some 0\<rparr>)) - 1)
                 div nat (batchSize_of (Some \<lparr>opt_batchSize = Some 2, opt_delayMs = Some 0\<rparr>)) \<le> fuel
             then Some run else None)"
      and s: "sent run = [''551'', ''552'', ''553'']"
      and l: "length (succeeded run) + length (failed run) = length [''551'', ''552'', ''553'']"
      by blast
    have n: "(length [''551'', ''552'', ''553'']
                  + nat (batchSize_of (Some \<lparr>opt_batchSize = Some 2, opt_delayMs = Some 0\<rparr>)) - 1)
                 div nat (batchSize_of (Some \<lparr>opt_batchSize = Some 2, opt_delayMs = Some 0\<rparr>)) = 2"
      by (simp add: batchSize_of_def)
    show ?thesis
      using fuel [of 2] fuel [of 1] s l unfolding n by auto
  qed
  show "broadcastTemplate (\<lambda>(n::nat) to. Inr ''wamid.test'') (\<lambda>i. []) [''551'']
      (Some \<lparr>opt_batchSize = Some 0, opt_delayMs = None\<rparr>) 7
     = (None :: string BroadcastRun option)"
  proof -
    have h: "batchSize_of (Some \<lparr>opt_batchSize = Some 0, opt_delayMs = None\<rparr>) \<le> 0
        \<and> [''551''] \<noteq> []"
      by (simp add: batchSize_of_def)
    from broadcast_terminates_and_covers [where options = "Some \<lparr>opt_batchSize = Some 0, opt_delayMs = None\<rparr>"
        and recipients = "[''551'']", THEN conjunct2, THEN conjunct2, rule_format, OF h]
    show ?thesis .
  qed
qed

end
